theory Spec2Isabelle
  imports Complex_Main "HOL-Library.Char_ord" "HOL-Library.List_Lexorder"
begin

section \<open>Paths (the part of pathlib the pipeline uses)\<close>

text \<open>
  A \<open>pathlib.PurePosixPath\<close> is its anchor (\<open>''''\<close> for a relative path, \<open>''/''\<close> for an
  absolute one) and the list of its components below the anchor.  \<open>Path('.')\<close> has no
  component at all.
\<close>

record path =
  anchor :: string
  parts :: "string list"

datatype py_exn =
    ValueError | TypeError | AttributeError | OverflowError
  | OSError | FileNotFoundError | CalledProcessError

text \<open>\<open>Path.name\<close>: the last component, or the empty string when there is none.\<close>

definition name :: "path \<Rightarrow> string" where
  "name p = (if parts p = [] then [] else last (parts p))"

text \<open>\<open>str.rfind\<close> for one character: the index of its last occurrence, or \<open>-1\<close>.\<close>

definition rfind :: "char \<Rightarrow> string \<Rightarrow> int" where
  "rfind c s =
     (if c \<in> set s then int (length s) - 1 - int (length (takeWhile (\<lambda>x. x \<noteq> c) (rev s)))
      else - 1)"

text \<open>
  \<open>Path.suffix\<close>:
  \<^verbatim>\<open>i = name.rfind('.'); return name[i:] if 0 < i < len(name) - 1 else ''\<close>
\<close>

definition name_suffix :: "string \<Rightarrow> string" where
  "name_suffix nm =
     (let i = rfind CHR ''.'' nm
      in if 0 < i \<and> i < int (length nm) - 1 then drop (nat i) nm else [])"

definition suffix :: "path \<Rightarrow> string" where
  "suffix p = name_suffix (name p)"

text \<open>
  \<open>Path.with_suffix\<close>: a suffix holding a separator, a non-empty suffix that does not
  start with a dot, the suffix \<open>'.'\<close> and a path with an empty name raise \<open>ValueError\<close>;
  otherwise the old suffix (if any) is cut off the name and the new one appended.
\<close>

definition with_suffix :: "path \<Rightarrow> string \<Rightarrow> py_exn + path" where
  "with_suffix p sfx =
     (if CHR ''/'' \<in> set sfx then Inl ValueError
      else if (sfx \<noteq> [] \<and> hd sfx \<noteq> CHR ''.'') \<or> sfx = ''.'' then Inl ValueError
      else if name p = [] then Inl ValueError
      else let old_suffix = suffix p;
               nm = (if old_suffix = [] then name p @ sfx
                     else take (length (name p) - length old_suffix) (name p) @ sfx)
           in Inr (p\<lparr>parts := butlast (parts p) @ [nm]\<rparr>))"

text \<open>\<open>Path.parent\<close>: the path without its last component (the anchor is its own parent).\<close>

definition parent :: "path \<Rightarrow> path" where
  "parent p = p\<lparr>parts := butlast (parts p)\<rparr>"

text \<open>\<open>Path.stem\<close>: the name without its suffix.\<close>

definition stem :: "path \<Rightarrow> string" where
  "stem p = take (length (name p) - length (suffix p)) (name p)"

text \<open>\<open>Path.with_name\<close>: the same directory, another last component.\<close>

definition with_name :: "path \<Rightarrow> string \<Rightarrow> path" where
  "with_name p nm = p\<lparr>parts := butlast (parts p) @ [nm]\<rparr>"

text \<open>\<open>p / q\<close>: an anchored right operand replaces the left one.\<close>

definition joinpath :: "path \<Rightarrow> path \<Rightarrow> path" where
  "joinpath p q = (if anchor q \<noteq> [] then q else p\<lparr>parts := parts p @ parts q\<rparr>)"

text \<open>\<open>Path(root) / fname\<close> for a file name given by the directory listing.\<close>

definition join_name :: "path \<Rightarrow> string \<Rightarrow> path" where
  "join_name p fname = joinpath p \<lparr>anchor = [], parts = [fname]\<rparr>"

text \<open>
  \<open>Path.relative_to\<close>: \<open>ValueError\<close> unless the other path has the same anchor and its
  components are a prefix of this path's; the result is the unanchored remainder.
\<close>

definition relative_to :: "path \<Rightarrow> path \<Rightarrow> py_exn + path" where
  "relative_to p other =
     (if anchor p = anchor other \<and> take (length (parts other)) (parts p) = parts other
      then Inr \<lparr>anchor = [], parts = drop (length (parts other)) (parts p)\<rparr>
      else Inl ValueError)"

text \<open>\<open>str.lower\<close> on the ASCII letters (the supported extensions are ASCII).\<close>

definition lower_char :: "char \<Rightarrow> char" where
  "lower_char c =
     (case map_of (zip ''ABCDEFGHIJKLMNOPQRSTUVWXYZ'' ''abcdefghijklmnopqrstuvwxyz'') c of
        None \<Rightarrow> c
      | Some l \<Rightarrow> l)"

definition lower :: "string \<Rightarrow> string" where
  "lower s = map lower_char s"

text \<open>\<open>str(path)\<close>: the anchor, then the components joined by \<open>/\<close>; \<open>'.'\<close> for the empty path.\<close>

fun join_sep :: "string list \<Rightarrow> string" where
  "join_sep [] = []"
| "join_sep [x] = x"
| "join_sep (x # y # ys) = x @ ''/'' @ join_sep (y # ys)"

definition path_str :: "path \<Rightarrow> string" where
  "path_str p = (if anchor p = [] \<and> parts p = [] then ''.'' else anchor p @ join_sep (parts p))"

section \<open>Values read from a sidecar\<close>

text \<open>
  A Python number as \<open>json.load\<close> returns it: an unbounded \<open>int\<close>, or a \<open>float\<close>, which is
  a finite double (kept as the rational it denotes), an infinity or NaN.
\<close>

datatype pynum = PInt int | PFloat rat | PInf | PNegInf | PNaN

text \<open>
  The value \<open>json.load\<close> returns.  \<open>JNull\<close> is \<open>None\<close>; \<open>JObj\<close> is a \<open>dict\<close>, given by its
  items and read with \<open>map_of\<close>.
\<close>

datatype json =
    JNull | JBool bool | JNum pynum | JStr string
  | JArr "json list" | JObj "(string \<times> json) list"

text \<open>Python truthiness (\<open>if v:\<close>, \<open>a or b\<close>).\<close>

fun truthy :: "json \<Rightarrow> bool" where
  "truthy JNull = False"
| "truthy (JBool b) = b"
| "truthy (JNum (PInt i)) = (i \<noteq> 0)"
| "truthy (JNum (PFloat r)) = (r \<noteq> 0)"
| "truthy (JNum PInf) = True"
| "truthy (JNum PNegInf) = True"
| "truthy (JNum PNaN) = True"
| "truthy (JStr s) = (s \<noteq> [])"
| "truthy (JArr xs) = (xs \<noteq> [])"
| "truthy (JObj kvs) = (kvs \<noteq> [])"

section \<open>Effects: a trace of events, and exceptions as values\<close>

record datetime =
  year :: int
  month :: int
  day :: int
  hour :: int
  minute :: int
  second :: int

text \<open>One argument of a command line: a string, or an f-string \<open>f"{prefix}{value}"\<close>
  whose value is a sidecar value formatted by Python.\<close>

datatype arg = Str string | Fmt string json

text \<open>The values the final report is built from (lines 282 to 299).\<close>

record report =
  rep_input_dir :: path
  rep_output_dir :: path
  rep_total :: int
  rep_processed :: int
  rep_failed :: int
  rep_types :: "(string \<times> int) list"
  rep_failed_files :: "string list"

datatype level = INFO | WARNING | ERROR

text \<open>The log messages of \<open>merged_script.py\<close>, one constructor for each call of the logger.\<close>

datatype msg =
    ConvertingHEIC path path
  | HEICConversionFailed path
  | FfmpegNotFound
  | Converting path path
  | VideoConversionFailed path
  | UnableToParseTimestamp json path
  | UpdatingMetadata path
  | ExifToolError path
  | MetadataUpdated path
  | ExifToolRunFailed path
  | CopyingMetadata path path
  | MetadataCopyFailed path path
  | RelativePathError path
  | CopyError path path
  | CouldNotParseJSON path
  | NoSidecar path
  | ProcessingFile path
  | FinalReport report
  | ReportWritten path
  | ReportWriteFailed

datatype event =
    Log level msg
  | Run "arg list"
  | Copy2 path path
  | Mkdir path
  | WriteText path report

text \<open>How a child process ends: with a return code, or it could not be started.\<close>

datatype run_result = Exited int | SpawnFailed

text \<open>
  The world outside the script: the file system and the external tools.  It answers
  each request of the script; it is not changed by the run.
\<close>

record env =
  path_exists :: "path \<Rightarrow> bool"
  which :: "string \<Rightarrow> bool"
  spawn :: "arg list \<Rightarrow> run_result"
  copy2_ok :: "path \<Rightarrow> path \<Rightarrow> bool"
  mkdir_ok :: "path \<Rightarrow> bool"
  read_json :: "path \<Rightarrow> json option"
  write_ok :: "path \<Rightarrow> bool"
  os_walk :: "path \<Rightarrow> (path \<times> string list \<times> string list) list"

text \<open>A computation: the events it caused, then the exception it raised or its value.\<close>

type_synonym 'a comp = "event list \<times> (py_exn + 'a)"

definition ret :: "'a \<Rightarrow> 'a comp" where
  "ret x = ([], Inr x)"

definition raise :: "py_exn \<Rightarrow> 'a comp" where
  "raise e = ([], Inl e)"

definition emit :: "event \<Rightarrow> unit comp" where
  "emit ev = ([ev], Inr ())"

definition lift :: "py_exn + 'a \<Rightarrow> 'a comp" where
  "lift r = ([], r)"

definition seq :: "'a comp \<Rightarrow> ('a \<Rightarrow> 'b comp) \<Rightarrow> 'b comp" where
  "seq m f =
     (case m of
        (tr, Inl e) \<Rightarrow> (tr, Inl e)
      | (tr, Inr x) \<Rightarrow> (case f x of (tr', r) \<Rightarrow> (tr @ tr', r)))"

text \<open>\<open>try: m  except <handled>: handler\<close>\<close>

definition try_except :: "'a comp \<Rightarrow> (py_exn \<Rightarrow> bool) \<Rightarrow> 'a comp \<Rightarrow> 'a comp" where
  "try_except m handled handler =
     (case m of
        (tr, Inl e) \<Rightarrow>
          (if handled e then (case handler of (tr', r) \<Rightarrow> (tr @ tr', r)) else (tr, Inl e))
      | (tr, Inr x) \<Rightarrow> (tr, Inr x))"

text \<open>\<open>subprocess.run(args, check=...)\<close>\<close>

definition subprocess_run :: "env \<Rightarrow> arg list \<Rightarrow> bool \<Rightarrow> int comp" where
  "subprocess_run env args check =
     seq (emit (Run args)) (\<lambda>_.
       case spawn env args of
         SpawnFailed \<Rightarrow> raise FileNotFoundError
       | Exited rc \<Rightarrow> if check \<and> rc \<noteq> 0 then raise CalledProcessError else ret rc)"

section \<open>Conversion functions (lines 38 to 94)\<close>

definition convert_heic_to_jpg :: "env \<Rightarrow> path \<Rightarrow> path \<Rightarrow> bool comp" where
  "convert_heic_to_jpg env heic_file jpg_file =
     seq (emit (Log INFO (ConvertingHEIC heic_file jpg_file))) (\<lambda>_.
     try_except
       (seq (subprocess_run env
               [Str ''magick'', Str ''convert'', Str (path_str heic_file),
                Str ''-auto-orient'', Str (path_str jpg_file)] True)
            (\<lambda>_. ret True))
       (\<lambda>e. e = CalledProcessError)
       (seq (emit (Log ERROR (HEICConversionFailed heic_file))) (\<lambda>_. ret False)))"

definition ffmpeg_args :: "path \<Rightarrow> path \<Rightarrow> arg list" where
  "ffmpeg_args mov_file mp4_file =
     [Str ''ffmpeg'', Str ''-y'', Str ''-hwaccel'', Str ''none'', Str ''-ignore_unknown'',
      Str ''-i'', Str (path_str mov_file), Str ''-map'', Str ''0:v:0'', Str ''-map'',
      Str ''0:a:0'', Str ''-dn'', Str ''-c:v'', Str ''libx264'', Str ''-preset'', Str ''fast'',
      Str ''-pix_fmt'', Str ''yuv420p'', Str ''-vf'', Str ''format=yuv420p'', Str ''-c:a'',
      Str ''aac'', Str ''-strict'', Str ''experimental'', Str (path_str mp4_file)]"

definition convert_video_to_mp4 :: "env \<Rightarrow> path \<Rightarrow> path \<Rightarrow> bool comp" where
  "convert_video_to_mp4 env mov_file mp4_file =
     (if \<not> which env ''ffmpeg''
      then seq (emit (Log ERROR FfmpegNotFound)) (\<lambda>_. ret False)
      else
        seq (emit (Log INFO (Converting mov_file mp4_file))) (\<lambda>_.
        try_except
          (seq (subprocess_run env (ffmpeg_args mov_file mp4_file) True) (\<lambda>_. ret True))
          (\<lambda>e. e = CalledProcessError)
          (seq (emit (Log ERROR (VideoConversionFailed mov_file))) (\<lambda>_. ret False))))"

section \<open>The library calls of the metadata applier\<close>

text \<open>
  \<open>v.get(key)\<close> and \<open>v.get(key, default)\<close>: only a \<open>dict\<close> has the method; the default of
  the first is \<open>None\<close>.
\<close>

definition dict_get :: "(string \<times> json) list \<Rightarrow> string \<Rightarrow> json \<Rightarrow> json" where
  "dict_get kvs k d = (case map_of kvs k of None \<Rightarrow> d | Some x \<Rightarrow> x)"

definition get :: "json \<Rightarrow> string \<Rightarrow> json comp" where
  "get v k = (case v of JObj kvs \<Rightarrow> ret (dict_get kvs k JNull) | _ \<Rightarrow> raise AttributeError)"

definition get_default :: "json \<Rightarrow> string \<Rightarrow> json \<Rightarrow> json comp" where
  "get_default v k d = (case v of JObj kvs \<Rightarrow> ret (dict_get kvs k d) | _ \<Rightarrow> raise AttributeError)"

text \<open>
  \<open>int(s)\<close> for a string.  A \<open>str\<close> is the list of its code points, taken here to be below
  256.  White space around the literal is dropped: the six ASCII characters that C's
  \<open>isspace\<close> accepts, and the white space outside ASCII, which below 256 is U+0085 and
  U+00A0 (the separators U+001C to U+001F are not dropped).  Then come an optional sign and
  decimal digits, where single underscores may stand between digits; more than 4300
  digits are refused (the default limit of CPython 3.11).  Below 256 the only decimal
  digits are the ASCII ones.
\<close>

definition is_space :: "char \<Rightarrow> bool" where
  "is_space c =
     (c \<in> set [CHR 0x09, CHR 0x0A, CHR 0x0B, CHR 0x0C, CHR 0x0D, CHR 0x20,
                CHR 0x85, CHR 0xA0])"

definition is_digit :: "char \<Rightarrow> bool" where
  "is_digit c = (c \<in> set ''0123456789'')"

definition digit_val :: "char \<Rightarrow> int" where
  "digit_val c = int (length (takeWhile (\<lambda>d. d \<noteq> c) ''0123456789''))"

definition strip :: "string \<Rightarrow> string" where
  "strip s = rev (dropWhile is_space (rev (dropWhile is_space s)))"

fun parse_digits :: "string \<Rightarrow> int \<Rightarrow> int option" where
  "parse_digits [] acc = Some acc"
| "parse_digits (c # cs) acc =
     (if is_digit c then parse_digits cs (10 * acc + digit_val c)
      else if c = CHR ''_'' then
        (case cs of
           [] \<Rightarrow> None
         | d # ds \<Rightarrow> if is_digit d then parse_digits ds (10 * acc + digit_val d) else None)
      else None)"

definition parse_unsigned :: "string \<Rightarrow> int option" where
  "parse_unsigned s =
     (case s of [] \<Rightarrow> None
      | c # cs \<Rightarrow> if is_digit c then parse_digits cs (digit_val c) else None)"

definition int_of_string :: "string \<Rightarrow> int option" where
  "int_of_string s =
     (if 4300 < length (filter is_digit s) then None
      else case strip s of
        [] \<Rightarrow> None
      | c # cs \<Rightarrow>
          if c = CHR ''-'' then map_option uminus (parse_unsigned cs)
          else if c = CHR ''+'' then parse_unsigned cs
          else parse_unsigned (c # cs))"

text \<open>
  \<open>int(v)\<close>: a string is parsed (\<open>ValueError\<close> if it is no integer literal), a float is
  truncated towards zero (\<open>OverflowError\<close> for an infinity, \<open>ValueError\<close> for NaN), a
  \<open>bool\<close> is 0 or 1, and \<open>None\<close>, a list and a dict raise \<open>TypeError\<close>.
\<close>

fun py_int :: "json \<Rightarrow> py_exn + int" where
  "py_int (JStr s) = (case int_of_string s of None \<Rightarrow> Inl ValueError | Some i \<Rightarrow> Inr i)"
| "py_int (JNum (PInt i)) = Inr i"
| "py_int (JNum (PFloat r)) = Inr (if 0 \<le> r then \<lfloor>r\<rfloor> else \<lceil>r\<rceil>)"
| "py_int (JNum PInf) = Inl OverflowError"
| "py_int (JNum PNegInf) = Inl OverflowError"
| "py_int (JNum PNaN) = Inl ValueError"
| "py_int (JBool b) = Inr (if b then 1 else 0)"
| "py_int JNull = Inl TypeError"
| "py_int (JArr xs) = Inl TypeError"
| "py_int (JObj kvs) = Inl TypeError"

text \<open>The proleptic Gregorian calendar.\<close>

definition is_leap :: "int \<Rightarrow> bool" where
  "is_leap y = (y mod 4 = 0 \<and> (y mod 100 \<noteq> 0 \<or> y mod 400 = 0))"

definition year_length :: "int \<Rightarrow> int" where
  "year_length y = (if is_leap y then 366 else 365)"

definition month_lengths :: "int \<Rightarrow> int list" where
  "month_lengths y = [31, if is_leap y then 29 else 28, 31, 30, 31, 30, 31, 31, 30, 31, 30, 31]"

text \<open>
  The year that holds a day, given as a year and a day number counted from its 1 January
  (negative before it): the year is moved until the day number lies within it.
\<close>

function year_of_days :: "int \<Rightarrow> int \<Rightarrow> int \<times> int" where
  "year_of_days y d =
     (if d < 0 then year_of_days (y - 1) (d + year_length (y - 1))
      else if year_length y \<le> d then year_of_days (y + 1) (d - year_length y)
      else (y, d))"
  by pat_completeness auto
termination
  by (relation "measure (\<lambda>(y, d). if d < 0 then nat (- d) + 366 else nat d)")
     (auto simp: year_length_def split: if_splits)

text \<open>The month and the day of the month of a day number within a year.\<close>

fun month_scan :: "int list \<Rightarrow> int \<Rightarrow> int \<Rightarrow> int \<times> int" where
  "month_scan [] m d = (m, d + 1)"
| "month_scan (l # ls) m d = (if d < l then (m, d + 1) else month_scan ls (m + 1) (d - l))"

text \<open>\<open>gmtime\<close>: the UTC calendar time of a number of seconds since the epoch.\<close>

definition gmtime :: "int \<Rightarrow> datetime" where
  "gmtime t =
     (let days = t div 86400; r = t mod 86400;
          (y, doy) = year_of_days 1970 days;
          (m, d) = month_scan (month_lengths y) 1 doy
      in \<lparr>year = y, month = m, day = d,
          hour = r div 3600, minute = r mod 3600 div 60, second = r mod 60\<rparr>)"





text \<open>
  \<open>datetime.datetime.utcfromtimestamp\<close> (CPython on a 64-bit POSIX system):
  \<open>OverflowError\<close> when the number does not fit \<open>time_t\<close>, \<open>OSError\<close> when \<open>gmtime\<close> cannot
  hold the year, \<open>ValueError\<close> when the year is outside 1 to 9999.
\<close>

definition utcfromtimestamp :: "int \<Rightarrow> py_exn + datetime" where
  "utcfromtimestamp t =
     (if t < - (2 ^ 63) \<or> 2 ^ 63 \<le> t then Inl OverflowError
      else let dt = gmtime t in
        if year dt - 1900 < - (2 ^ 31) \<or> 2 ^ 31 \<le> year dt - 1900 then Inl OSError
        else if year dt < 1 \<or> 9999 < year dt then Inl ValueError
        else Inr dt)"

text \<open>A non-negative number in decimal, filled with zeros on the left to a width.\<close>

fun decimal :: "nat \<Rightarrow> string" where
  "decimal n =
     (if n < 10 then [''0123456789'' ! n]
      else decimal (n div 10) @ [''0123456789'' ! (n mod 10)])"

definition zfill :: "nat \<Rightarrow> int \<Rightarrow> string" where
  "zfill w n = (let ds = decimal (nat n) in replicate (w - length ds) CHR ''0'' @ ds)"

text \<open>
  \<open>utc_time.strftime("%Y:%m:%d %H:%M:%S")\<close> with the C library of Linux (glibc): \<open>%Y\<close> is
  the year as it is, with no zeros before it (\<open>987\<close> for the year 987); the other fields
  have two digits.
\<close>

definition strftime :: "datetime \<Rightarrow> string" where
  "strftime dt =
     decimal (nat (year dt)) @ '':'' @ zfill 2 (month dt) @ '':'' @ zfill 2 (day dt) @ '' '' @
     zfill 2 (hour dt) @ '':'' @ zfill 2 (minute dt) @ '':'' @ zfill 2 (second dt)"

text \<open>\<open>abs(v)\<close>: of a number (a \<open>bool\<close> is the integer 0 or 1); \<open>TypeError\<close> otherwise.\<close>

fun py_abs :: "json \<Rightarrow> py_exn + pynum" where
  "py_abs (JNum (PInt i)) = Inr (PInt \<bar>i\<bar>)"
| "py_abs (JNum (PFloat r)) = Inr (PFloat \<bar>r\<bar>)"
| "py_abs (JNum PInf) = Inr PInf"
| "py_abs (JNum PNegInf) = Inr PInf"
| "py_abs (JNum PNaN) = Inr PNaN"
| "py_abs (JBool b) = Inr (PInt (if b then 1 else 0))"
| "py_abs JNull = Inl TypeError"
| "py_abs (JStr s) = Inl TypeError"
| "py_abs (JArr xs) = Inl TypeError"
| "py_abs (JObj kvs) = Inl TypeError"

text \<open>\<open>x > c\<close> and \<open>x >= c\<close> of a number with a finite float \<open>c\<close>: exact, false for NaN.\<close>

fun num_gt :: "pynum \<Rightarrow> rat \<Rightarrow> bool" where
  "num_gt (PInt i) c = (c < of_int i)"
| "num_gt (PFloat r) c = (c < r)"
| "num_gt PInf c = True"
| "num_gt PNegInf c = False"
| "num_gt PNaN c = False"

fun num_ge :: "pynum \<Rightarrow> rat \<Rightarrow> bool" where
  "num_ge (PInt i) c = (c \<le> of_int i)"
| "num_ge (PFloat r) c = (c \<le> r)"
| "num_ge PInf c = True"
| "num_ge PNegInf c = False"
| "num_ge PNaN c = False"

text \<open>\<open>v >= 0\<close>: \<open>TypeError\<close> unless \<open>v\<close> is a number.\<close>

fun py_ge_zero :: "json \<Rightarrow> py_exn + bool" where
  "py_ge_zero (JNum n) = Inr (num_ge n 0)"
| "py_ge_zero (JBool b) = Inr True"
| "py_ge_zero JNull = Inl TypeError"
| "py_ge_zero (JStr s) = Inl TypeError"
| "py_ge_zero (JArr xs) = Inl TypeError"
| "py_ge_zero (JObj kvs) = Inl TypeError"

text \<open>The float literal \<open>0.00001\<close>: the double nearest to it, exactly.\<close>

definition gps_threshold :: rat where
  "gps_threshold = 5902958103587057 / 590295810358705651712"

section \<open>Metadata functions (lines 101 to 188)\<close>

text \<open>
  Lines 110 and 111:
  \<^verbatim>\<open>metadata.get('photoTakenTime', {}).get('timestamp') or
  metadata.get('creationTime', {}).get('timestamp')\<close>
\<close>

definition photo_timestamp :: "json \<Rightarrow> json comp" where
  "photo_timestamp metadata =
     seq (get_default metadata ''photoTakenTime'' (JObj [])) (\<lambda>taken.
     seq (get taken ''timestamp'') (\<lambda>t1.
       if truthy t1 then ret t1
       else seq (get_default metadata ''creationTime'' (JObj [])) (\<lambda>created.
            get created ''timestamp'')))"

text \<open>Lines 112 to 124: the arguments the timestamp adds to the command line.\<close>

definition timestamp_args :: "path \<Rightarrow> json \<Rightarrow> arg list comp" where
  "timestamp_args target_file metadata =
     seq (photo_timestamp metadata) (\<lambda>ts.
       if truthy ts then
         try_except
           (seq (lift (py_int ts)) (\<lambda>epoch_time.
            seq (lift (utcfromtimestamp epoch_time)) (\<lambda>utc_time.
              let date_str = strftime utc_time
              in ret [Str (''-DateTimeOriginal='' @ date_str),
                      Str (''-CreateDate='' @ date_str),
                      Str (''-ModifyDate='' @ date_str)])))
           (\<lambda>e. e = ValueError)
           (seq (emit (Log WARNING (UnableToParseTimestamp ts target_file))) (\<lambda>_. ret []))
       else ret [])"

text \<open>
  Line 127: \<^verbatim>\<open>metadata.get('geoData') or metadata.get('geoDataExif') or {}\<close>
\<close>

definition geo_data :: "json \<Rightarrow> json comp" where
  "geo_data metadata =
     seq (get metadata ''geoData'') (\<lambda>g1.
       if truthy g1 then ret g1
       else seq (get metadata ''geoDataExif'') (\<lambda>g2.
            ret (if truthy g2 then g2 else JObj [])))"

text \<open>
  Line 130, with the short-circuit evaluation of \<open>and\<close> and \<open>or\<close>:
  \<^verbatim>\<open>latitude is not None and longitude is not None and
  (abs(latitude) > 0.00001 or abs(longitude) > 0.00001)\<close>
\<close>

definition gps_wanted :: "json \<Rightarrow> json \<Rightarrow> bool comp" where
  "gps_wanted latitude longitude =
     (if latitude = JNull then ret False
      else if longitude = JNull then ret False
      else seq (lift (py_abs latitude)) (\<lambda>a.
             if num_gt a gps_threshold then ret True
             else seq (lift (py_abs longitude)) (\<lambda>b. ret (num_gt b gps_threshold))))"

text \<open>Lines 127 to 136: the arguments the coordinates add to the command line.\<close>

definition gps_args :: "json \<Rightarrow> arg list comp" where
  "gps_args metadata =
     seq (geo_data metadata) (\<lambda>geo.
     seq (get geo ''latitude'') (\<lambda>latitude.
     seq (get geo ''longitude'') (\<lambda>longitude.
     seq (gps_wanted latitude longitude) (\<lambda>wanted.
       if wanted then
         seq (lift (py_ge_zero latitude)) (\<lambda>north.
         seq (lift (py_ge_zero longitude)) (\<lambda>east.
           ret [Fmt ''-GPSLatitude='' latitude,
                Fmt ''-GPSLongitude='' longitude,
                Str (''-GPSLatitudeRef='' @ (if north then ''N'' else ''S'')),
                Str (''-GPSLongitudeRef='' @ (if east then ''E'' else ''W''))]))
       else ret []))))"

text \<open>Lines 139 to 141.\<close>

definition description_args :: "json \<Rightarrow> arg list comp" where
  "description_args metadata =
     seq (get metadata ''description'') (\<lambda>description.
       ret (if truthy description then [Fmt ''-ImageDescription='' description] else []))"

definition update_metadata_with_exiftool :: "env \<Rightarrow> path \<Rightarrow> json \<Rightarrow> unit comp" where
  "update_metadata_with_exiftool env target_file metadata =
     seq (timestamp_args target_file metadata) (\<lambda>ts.
     seq (gps_args metadata) (\<lambda>gps.
     seq (description_args metadata) (\<lambda>desc.
       let exiftool_args =
             [Str ''exiftool'', Str ''-overwrite_original''] @ ts @ gps @ desc @
             [Str (path_str target_file)]
       in
         seq (emit (Log INFO (UpdatingMetadata target_file))) (\<lambda>_.
         try_except
           (seq (subprocess_run env exiftool_args False) (\<lambda>returncode.
              if returncode \<noteq> 0 then emit (Log ERROR (ExifToolError target_file))
              else emit (Log INFO (MetadataUpdated target_file))))
           (\<lambda>e. True)
           (emit (Log ERROR (ExifToolRunFailed target_file)))))))"

definition copy_metadata :: "env \<Rightarrow> path \<Rightarrow> path \<Rightarrow> bool comp" where
  "copy_metadata env src_file dst_file =
     seq (emit (Log INFO (CopyingMetadata src_file dst_file))) (\<lambda>_.
     try_except
       (seq (subprocess_run env
               [Str ''exiftool'', Str ''-overwrite_original'', Str ''-TagsFromFile'',
                Str (path_str src_file), Str ''-All:All'', Str (path_str dst_file)] True)
            (\<lambda>_. ret True))
       (\<lambda>e. e = CalledProcessError)
       (seq (emit (Log ERROR (MetadataCopyFailed src_file dst_file))) (\<lambda>_. ret False)))"

definition find_corresponding_json :: "env \<Rightarrow> path \<Rightarrow> path option comp" where
  "find_corresponding_json env media_file =
     seq (lift (with_suffix media_file (suffix media_file @ ''.json''))) (\<lambda>json_candidate1.
       if path_exists env json_candidate1 then ret (Some json_candidate1)
       else seq (lift (with_suffix media_file ''.json'')) (\<lambda>json_candidate2.
              if path_exists env json_candidate2 then ret (Some json_candidate2)
              else ret None))"

section \<open>Processing each file (lines 195 to 256)\<close>

text \<open>
  Lines 213 to 233: the output file is converted or copied.  The value is \<open>None\<close> where
  \<open>process_file\<close> returns \<open>False\<close>, and otherwise the output path and
  \<open>conversion_performed\<close>.
\<close>

definition convert_or_copy :: "env \<Rightarrow> path \<Rightarrow> path \<Rightarrow> (path \<times> bool) option comp" where
  "convert_or_copy env file_path output_file0 =
     (let ext = lower (suffix file_path) in
      if ext = ''.heic'' then
        seq (lift (with_suffix output_file0 ''.jpg'')) (\<lambda>output_file.
        seq (convert_heic_to_jpg env file_path output_file) (\<lambda>ok.
          ret (if \<not> ok then None else Some (output_file, True))))
      else if ext \<in> set [''.mov'', ''.avi''] then
        seq (lift (with_suffix output_file0 ''.mp4'')) (\<lambda>output_file.
        seq (convert_video_to_mp4 env file_path output_file) (\<lambda>ok.
          ret (if \<not> ok then None else Some (output_file, True))))
      else
        seq (emit (Copy2 file_path output_file0)) (\<lambda>_.
          if copy2_ok env file_path output_file0 then ret (Some (output_file0, False))
          else seq (emit (Log ERROR (CopyError file_path output_file0))) (\<lambda>_. ret None)))"

text \<open>Lines 239 to 246: the sidecar is read; of a non-empty list the first element is used.\<close>

definition load_sidecar :: "env \<Rightarrow> path \<Rightarrow> json comp" where
  "load_sidecar env json_sidecar =
     (case read_json env json_sidecar of
        None \<Rightarrow> seq (emit (Log WARNING (CouldNotParseJSON json_sidecar))) (\<lambda>_. ret (JObj []))
      | Some metadata \<Rightarrow>
          ret (case metadata of JArr (first # rest) \<Rightarrow> first | _ \<Rightarrow> metadata))"

text \<open>Lines 235 to 254: the metadata step.\<close>

definition apply_metadata :: "env \<Rightarrow> path \<Rightarrow> path \<Rightarrow> bool \<Rightarrow> unit comp" where
  "apply_metadata env file_path output_file conversion_performed =
     seq (find_corresponding_json env file_path) (\<lambda>json_sidecar.
       if json_sidecar \<noteq> None \<and> path_exists env (the json_sidecar) then
         seq (load_sidecar env (the json_sidecar)) (\<lambda>metadata.
           update_metadata_with_exiftool env output_file metadata)
       else if conversion_performed then
         seq (copy_metadata env file_path output_file) (\<lambda>_. ret ())
       else emit (Log INFO (NoSidecar file_path)))"

definition process_file :: "env \<Rightarrow> path \<Rightarrow> path \<Rightarrow> path \<Rightarrow> bool comp" where
  "process_file env file_path input_dir output_dir =
     (case relative_to file_path input_dir of
        Inl e \<Rightarrow>
          (if e = ValueError
           then seq (emit (Log ERROR (RelativePathError file_path))) (\<lambda>_. ret False)
           else raise e)
      | Inr rel_path \<Rightarrow>
          let output_file = joinpath output_dir rel_path in
          seq (emit (Mkdir (parent output_file))) (\<lambda>_.
          seq (if mkdir_ok env (parent output_file) then ret () else raise OSError) (\<lambda>_.
          seq (convert_or_copy env file_path output_file) (\<lambda>r.
            case r of
              None \<Rightarrow> ret False
            | Some (output_file', conversion_performed) \<Rightarrow>
                seq (apply_metadata env file_path output_file' conversion_performed) (\<lambda>_.
                  ret True)))))"

section \<open>The directory walk and its report (lines 259 to 310)\<close>

definition SUPPORTED_MEDIA_EXTENSIONS :: "string set" where
  "SUPPORTED_MEDIA_EXTENSIONS =
     set [''.jpg'', ''.jpeg'', ''.png'', ''.mp4'', ''.mov'', ''.heic'', ''.avi'', ''.gif'']"

record counters =
  total_files :: int
  processed_files :: int
  failed_files :: "string list"
  extension_map :: "(string \<times> int) list"

text \<open>Lines 264 to 267.\<close>

definition initial_counters :: counters where
  "initial_counters =
     \<lparr>total_files = 0, processed_files = 0, failed_files = [], extension_map = []\<rparr>"

text \<open>\<open>extension_map[k] += 1\<close> on a \<open>defaultdict(int)\<close>, kept as its list of items.\<close>

definition increment :: "(string \<times> int) list \<Rightarrow> string \<Rightarrow> (string \<times> int) list" where
  "increment m k =
     (if k \<in> fst ` set m then map (\<lambda>(k', v). (k', if k' = k then v + 1 else v)) m
      else m @ [(k, 0 + 1)])"

text \<open>Lines 271 to 279: the body of the inner loop, for one file name.\<close>

definition visit_file :: "env \<Rightarrow> path \<Rightarrow> path \<Rightarrow> path \<Rightarrow> string \<Rightarrow> counters \<Rightarrow> counters comp" where
  "visit_file env input_dir output_dir root_dir fname c =
     (let file_path = join_name root_dir fname in
      if lower (suffix file_path) \<in> SUPPORTED_MEDIA_EXTENSIONS then
        let c1 = c\<lparr>total_files := total_files c + 1\<rparr> in
        seq (emit (Log INFO (ProcessingFile file_path))) (\<lambda>_.
        seq (process_file env file_path input_dir output_dir) (\<lambda>ok.
          ret (if ok
               then c1\<lparr>processed_files := processed_files c1 + 1,
                       extension_map := increment (extension_map c1) (lower (suffix file_path))\<rparr>
               else c1\<lparr>failed_files := failed_files c1 @ [path_str file_path]\<rparr>)))
      else ret c)"

fun visit_files :: "env \<Rightarrow> path \<Rightarrow> path \<Rightarrow> path \<Rightarrow> string list \<Rightarrow> counters \<Rightarrow> counters comp" where
  "visit_files env input_dir output_dir root_dir [] c = ret c"
| "visit_files env input_dir output_dir root_dir (fname # files) c =
     seq (visit_file env input_dir output_dir root_dir fname c)
         (\<lambda>c'. visit_files env input_dir output_dir root_dir files c')"

fun walk :: "env \<Rightarrow> path \<Rightarrow> path \<Rightarrow> (path \<times> string list \<times> string list) list \<Rightarrow> counters \<Rightarrow> counters comp" where
  "walk env input_dir output_dir [] c = ret c"
| "walk env input_dir output_dir ((root_dir, dirs, files) # rest) c =
     seq (visit_files env input_dir output_dir root_dir files c)
         (\<lambda>c'. walk env input_dir output_dir rest c')"

definition final_report :: "path \<Rightarrow> path \<Rightarrow> counters \<Rightarrow> report" where
  "final_report input_dir output_dir c =
     \<lparr>rep_input_dir = input_dir, rep_output_dir = output_dir,
      rep_total = total_files c, rep_processed = processed_files c,
      rep_failed = total_files c - processed_files c,
      rep_types = sort_key fst (extension_map c),
      rep_failed_files = failed_files c\<rparr>"

definition process_directory :: "env \<Rightarrow> path \<Rightarrow> path \<Rightarrow> unit comp" where
  "process_directory env input_dir output_dir =
     seq (walk env input_dir output_dir (os_walk env input_dir) initial_counters)
       (\<lambda>c.
         let rep = final_report input_dir output_dir c;
             report_path = join_name output_dir ''report.txt''
         in
           seq (emit (Log INFO (FinalReport rep))) (\<lambda>_.
           try_except
             (seq (emit (WriteText report_path rep)) (\<lambda>_.
              seq (if write_ok env report_path then ret () else raise OSError) (\<lambda>_.
                emit (Log INFO (ReportWritten report_path)))))
             (\<lambda>e. True)
             (emit (Log ERROR ReportWriteFailed))))"

section \<open>Notions used to state the properties\<close>


text \<open>\<open>abs(v) > 0.00001\<close> holds (and is defined).\<close>

definition far_from_zero :: "json \<Rightarrow> bool" where
  "far_from_zero v = (case py_abs v of Inl e \<Rightarrow> False | Inr a \<Rightarrow> num_gt a gps_threshold)"

text \<open>\<open>v >= 0\<close> holds (and is defined).\<close>

definition non_negative :: "json \<Rightarrow> bool" where
  "non_negative v = (py_ge_zero v = Inr True)"

section \<open>Example worlds\<close>

text \<open>
  A world for the examples: the listed paths exist, every sidecar holds the given value
  (\<open>None\<close>: it cannot be parsed), the tools end as \<open>run\<close> says, \<open>ffmpeg\<close> is on the path,
  copying and writing succeed, and the input directory holds the given files only.
\<close>

definition example_env :: "path list \<Rightarrow> (arg list \<Rightarrow> run_result) \<Rightarrow> json option \<Rightarrow> string list \<Rightarrow> env" where
  "example_env existing run sidecar files =
     \<lparr>path_exists = (\<lambda>p. p \<in> set existing), which = (\<lambda>_. True), spawn = run,
      copy2_ok = (\<lambda>_ _. True), mkdir_ok = (\<lambda>_. True), read_json = (\<lambda>_. sidecar),
      write_ok = (\<lambda>_. True), os_walk = (\<lambda>d. [(d, [], files)])\<rparr>"

definition rel_path :: "string list \<Rightarrow> path" where
  "rel_path ps = \<lparr>anchor = [], parts = ps\<rparr>"

text \<open>\<open>isinstance(v, dict)\<close>\<close>

fun is_dict :: "json \<Rightarrow> bool" where
  "is_dict (JObj kvs) = True"
| "is_dict v = False"

text \<open>
  What \<open>update_metadata_with_exiftool\<close> logs after the tool has run (lines 146 to 153).
\<close>

definition exiftool_logged :: "env \<Rightarrow> arg list \<Rightarrow> path \<Rightarrow> event" where
  "exiftool_logged env args target_file =
     (case spawn env args of
        SpawnFailed \<Rightarrow> Log ERROR (ExifToolRunFailed target_file)
      | Exited rc \<Rightarrow>
          if rc \<noteq> 0 then Log ERROR (ExifToolError target_file)
          else Log INFO (MetadataUpdated target_file))"

definition in_dir :: path where
  "in_dir = rel_path [''in'']"

definition out_dir :: path where
  "out_dir = rel_path [''out'']"

text \<open>The relations between the counters that the walk keeps.\<close>

definition consistent :: "counters \<Rightarrow> bool" where
  "consistent c =
     (total_files c = processed_files c + int (length (failed_files c)) \<and>
      sum_list (map snd (extension_map c)) = processed_files c \<and>
      distinct (map fst (extension_map c)))"

text \<open>The same world, where the listing holds the files of supported extensions only.\<close>

definition supported_only :: "env \<Rightarrow> env" where
  "supported_only env =
     env\<lparr>os_walk := (\<lambda>d. map (\<lambda>(r, ds, fs).
        (r, ds, filter (\<lambda>f. lower (suffix (join_name r f)) \<in> SUPPORTED_MEDIA_EXTENSIONS) fs))
        (os_walk env d))\<rparr>"

lemmas comp_defs = ret_def raise_def emit_def lift_def seq_def try_except_def

lemma length_takeWhile_lt: "\<exists>x\<in>set xs. \<not> P x \<Longrightarrow> length (takeWhile P xs) < length xs"
  by (induction xs) auto

lemma rfind_nth:
  assumes "c \<in> set s"
  shows "0 \<le> rfind c s" and "rfind c s < int (length s)" and "s ! nat (rfind c s) = c"
proof -
  let ?k = "length (takeWhile (\<lambda>x. x \<noteq> c) (rev s))"
  have k: "?k < length (rev s)"
    using assms by (intro length_takeWhile_lt) auto
  have r: "rfind c s = int (length s) - 1 - int ?k" using assms by (simp add: rfind_def)
  show "0 \<le> rfind c s" using k r by simp
  show "rfind c s < int (length s)" using r by simp
  have "rev s ! ?k = c" using nth_length_takeWhile[OF k] by simp
  moreover have "rev s ! ?k = s ! (length s - Suc ?k)" using k by (simp add: rev_nth)
  moreover have "nat (rfind c s) = length s - Suc ?k" using r k by simp
  ultimately show "s ! nat (rfind c s) = c" by simp
qed

lemma name_suffix_cases:
  "name_suffix nm = [] \<or>
   (\<exists>i. 0 < i \<and> i < length nm - 1 \<and> nm ! i = CHR ''.'' \<and> name_suffix nm = drop i nm)"
proof (cases "name_suffix nm = []")
  case True then show ?thesis by simp
next
  case False
  let ?i = "rfind CHR ''.'' nm"
  have c: "0 < ?i \<and> ?i < int (length nm) - 1" and d: "name_suffix nm = drop (nat ?i) nm"
    using False by (auto simp: name_suffix_def Let_def split: if_splits)
  have "CHR ''.'' \<in> set nm" using c by (auto simp: rfind_def split: if_splits)
  then have "nm ! nat ?i = CHR ''.''" by (rule rfind_nth(3))
  moreover have "0 < nat ?i" "nat ?i < length nm - 1" using c by auto
  ultimately show ?thesis using d by blast
qed



lemma stem_suffix: "take (length nm - length (name_suffix nm)) nm @ name_suffix nm = nm"
  using name_suffix_cases[of nm] by auto

lemma stem_nonempty: "nm \<noteq> [] \<Longrightarrow> take (length nm - length (name_suffix nm)) nm \<noteq> []"
  using name_suffix_cases[of nm] by auto

lemma name_suffix_append_ext:
  assumes "st \<noteq> []" "ext \<noteq> []" "CHR ''.'' \<notin> set ext"
  shows "name_suffix (st @ CHR ''.'' # ext) = CHR ''.'' # ext"
proof -
  have tw: "takeWhile (\<lambda>x. x \<noteq> CHR ''.'') (rev (st @ CHR ''.'' # ext)) = rev ext"
    using assms(3) by (auto simp: takeWhile_append1 takeWhile_tail)
  have "rfind CHR ''.'' (st @ CHR ''.'' # ext) = int (length st)"
    unfolding rfind_def tw by simp
  then show ?thesis using assms by (simp add: name_suffix_def Let_def)
qed


lemma with_suffix_ok:
  assumes "name p \<noteq> []" "CHR ''/'' \<notin> set sfx" "sfx \<noteq> []" "hd sfx = CHR ''.''" "sfx \<noteq> ''.''"
  shows "with_suffix p sfx = Inr (with_name p (stem p @ sfx))"
  using assms stem_suffix[of "name p"]
  by (auto simp: with_suffix_def with_name_def stem_def suffix_def Let_def)

lemma name_with_name: "name (with_name p nm) = nm"
  by (simp add: name_def with_name_def)





lemma suffix_with_suffix:
  assumes "name p \<noteq> []" "ext \<noteq> []" "CHR ''.'' \<notin> set ext" "CHR ''/'' \<notin> set ext"
  shows "\<exists>q. with_suffix p (CHR ''.'' # ext) = Inr q \<and> suffix q = CHR ''.'' # ext \<and>
             q = with_name p (stem p @ CHR ''.'' # ext)"
proof -
  have ws: "with_suffix p (CHR ''.'' # ext) = Inr (with_name p (stem p @ CHR ''.'' # ext))"
    using assms by (intro with_suffix_ok) auto
  have "stem p \<noteq> []" using stem_nonempty[OF assms(1)] by (simp add: stem_def suffix_def)
  then have "name_suffix (stem p @ CHR ''.'' # ext) = CHR ''.'' # ext"
    using assms by (intro name_suffix_append_ext) auto
  then show ?thesis using ws by (simp add: suffix_def name_with_name)
qed

lemma lower_nonempty: "lower s \<noteq> [] \<Longrightarrow> s \<noteq> []"
  by (auto simp: lower_def)

lemma suffix_nonempty_name: "suffix p \<noteq> [] \<Longrightarrow> name p \<noteq> []"
  by (auto simp: suffix_def name_suffix_def Let_def rfind_def split: if_splits)

text \<open>
  Claim C1.  When the format normalizer yields an output path for a file whose output
  name mirrors the input name, the suffix of that path is decided by the lower-cased
  input suffix: \<open>.jpg\<close> for \<open>.heic\<close>, \<open>.mp4\<close> for \<open>.mov\<close> and \<open>.avi\<close>, and the input suffix
  itself otherwise, in which case the file is copied to the mirrored path and nothing
  else is done.
\<close>

theorem normalizer_suffix:
  assumes same: "name output_file0 = name file_path"
      and ok: "snd (convert_or_copy env file_path output_file0) = Inr (Some (out, conv))"
  shows "suffix out =
           (if lower (suffix file_path) = ''.heic'' then ''.jpg''
            else if lower (suffix file_path) \<in> {''.mov'', ''.avi''} then ''.mp4''
            else suffix file_path) \<and>
         (lower (suffix file_path) \<notin> {''.heic'', ''.mov'', ''.avi''} \<longrightarrow>
            out = output_file0 \<and>
            fst (convert_or_copy env file_path output_file0) = [Copy2 file_path out])"
proof -
  let ?ext = "lower (suffix file_path)"
  have sfx: "suffix output_file0 = suffix file_path" using same by (simp add: suffix_def)
  have nm: "?ext \<noteq> [] \<Longrightarrow> name output_file0 \<noteq> []"
    using same lower_nonempty suffix_nonempty_name by metis
  consider (heic) "?ext = ''.heic''" | (video) "?ext \<noteq> ''.heic''" "?ext \<in> {''.mov'', ''.avi''}"
    | (copy) "?ext \<noteq> ''.heic''" "?ext \<notin> {''.mov'', ''.avi''}" by blast
  then show ?thesis
  proof cases
    case heic
    then have "name output_file0 \<noteq> []" using nm by simp
    then obtain q where q: "with_suffix output_file0 ''.jpg'' = Inr q" "suffix q = ''.jpg''"
      using suffix_with_suffix[of output_file0 "''jpg''"] by auto
    have "out = q" using ok heic q(1)
      by (auto simp: convert_or_copy_def comp_defs Let_def split: prod.splits sum.splits if_splits)
    then show ?thesis using heic q(2) by simp
  next
    case video
    then have "name output_file0 \<noteq> []" using nm by auto
    then obtain q where q: "with_suffix output_file0 ''.mp4'' = Inr q" "suffix q = ''.mp4''"
      using suffix_with_suffix[of output_file0 "''mp4''"] by auto
    have "out = q" using ok video q(1)
      by (auto simp: convert_or_copy_def comp_defs Let_def split: prod.splits sum.splits if_splits)
    then show ?thesis using video q(2) by auto
  next
    case copy
    have "out = output_file0 \<and> fst (convert_or_copy env file_path output_file0) = [Copy2 file_path out]"
      using ok copy
      by (auto simp: convert_or_copy_def comp_defs Let_def split: prod.splits sum.splits if_splits)
    then show ?thesis using copy sfx by auto
  qed
qed

theorem normalizer_suffix_witness:
  "name (rel_path [''out'', ''photo.HEIC'']) = name (rel_path [''in'', ''photo.HEIC'']) \<and>
   snd (convert_or_copy (example_env [] (\<lambda>_. Exited 0) None [])
          (rel_path [''in'', ''photo.HEIC'']) (rel_path [''out'', ''photo.HEIC'']))
     = Inr (Some (rel_path [''out'', ''photo.jpg''], True)) \<and>
   suffix (rel_path [''out'', ''photo.jpg'']) = ''.jpg''"
proof -
  have h1: "name (rel_path [''out'', ''photo.HEIC'']) = name (rel_path [''in'', ''photo.HEIC''])"
    by (simp add: name_def rel_path_def)
  have h2: "snd (convert_or_copy (example_env [] (\<lambda>_. Exited 0) None [])
          (rel_path [''in'', ''photo.HEIC'']) (rel_path [''out'', ''photo.HEIC'']))
     = Inr (Some (rel_path [''out'', ''photo.jpg''], True))"
    by code_simp
  have h3: "lower (suffix (rel_path [''in'', ''photo.HEIC''])) = ''.heic''"
    by code_simp
  show ?thesis using normalizer_suffix[OF h1 h2] h1 h2 h3 by simp
qed

lemma mirrored_name:
  assumes "relative_to file_path input_dir = Inr rel" "parts rel \<noteq> []"
  shows "name (joinpath output_dir rel) = name file_path"
  using assms by (auto simp: relative_to_def joinpath_def name_def split: if_splits)

lemma listed_file_below_input:
  assumes "relative_to root_dir input_dir = Inr r"
  shows "\<exists>rel. relative_to (join_name root_dir fname) input_dir = Inr rel \<and> parts rel \<noteq> []"
proof -
  from assms have a: "anchor root_dir = anchor input_dir"
    and t: "take (length (parts input_dir)) (parts root_dir) = parts input_dir"
    by (auto simp: relative_to_def split: if_splits)
  have "length (take (length (parts input_dir)) (parts root_dir)) = length (parts input_dir)"
    using t by simp
  then have "length (parts input_dir) \<le> length (parts root_dir)" by simp
  then show ?thesis using a t by (auto simp: relative_to_def join_name_def joinpath_def)
qed

lemma find_json_some:
  assumes "snd (find_corresponding_json env p) = Inr (Some sc)"
  shows "path_exists env sc" and "find_corresponding_json env p = ([], Inr (Some sc))"
  using assms
  by (auto simp: find_corresponding_json_def comp_defs split: sum.splits if_splits prod.splits)

lemma find_json_none:
  assumes "snd (find_corresponding_json env p) = Inr None"
  shows "find_corresponding_json env p = ([], Inr None)"
  using assms
  by (auto simp: find_corresponding_json_def comp_defs split: sum.splits if_splits prod.splits)

lemma update_metadata_not_dict:
  "\<not> is_dict metadata \<Longrightarrow> update_metadata_with_exiftool env target metadata = ([], Inl AttributeError)"
  by (cases metadata)
     (simp_all add: update_metadata_with_exiftool_def timestamp_args_def photo_timestamp_def
        get_default_def comp_defs)

lemma update_metadata_built:
  assumes "timestamp_args target metadata = (tr, Inr ts)"
      and "gps_args metadata = ([], Inr gps)"
      and "description_args metadata = ([], Inr desc)"
  shows "update_metadata_with_exiftool env target metadata =
           (tr @ [Log INFO (UpdatingMetadata target),
                  Run ([Str ''exiftool'', Str ''-overwrite_original''] @ ts @ gps @ desc @
                       [Str (path_str target)]),
                  exiftool_logged env ([Str ''exiftool'', Str ''-overwrite_original''] @ ts @ gps @
                       desc @ [Str (path_str target)]) target],
            Inr ())"
  using assms
  by (simp add: update_metadata_with_exiftool_def subprocess_run_def exiftool_logged_def
        comp_defs Let_def split: run_result.splits)

lemma empty_bag_args:
  "timestamp_args target (JObj []) = ([], Inr [])"
  "gps_args (JObj []) = ([], Inr [])"
  "description_args (JObj []) = ([], Inr [])"
  by (simp_all add: timestamp_args_def photo_timestamp_def gps_args_def geo_data_def
        gps_wanted_def description_args_def get_def get_default_def dict_get_def comp_defs)

lemma update_metadata_empty:
  "update_metadata_with_exiftool env target (JObj []) =
     ([Log INFO (UpdatingMetadata target),
       Run [Str ''exiftool'', Str ''-overwrite_original'', Str (path_str target)],
       exiftool_logged env [Str ''exiftool'', Str ''-overwrite_original'', Str (path_str target)] target],
      Inr ())"
  using update_metadata_built[OF empty_bag_args, where env = env and target = target] by simp

lemma process_file_steps:
  assumes "relative_to file_path input_dir = Inr rel"
      and "mkdir_ok env (parent (joinpath output_dir rel))"
  shows "process_file env file_path input_dir output_dir =
     (case convert_or_copy env file_path (joinpath output_dir rel) of
        (tr, Inl e) \<Rightarrow> (Mkdir (parent (joinpath output_dir rel)) # tr, Inl e)
      | (tr, Inr None) \<Rightarrow> (Mkdir (parent (joinpath output_dir rel)) # tr, Inr False)
      | (tr, Inr (Some (out, conv))) \<Rightarrow>
          (case apply_metadata env file_path out conv of
             (tr', Inl e) \<Rightarrow> (Mkdir (parent (joinpath output_dir rel)) # tr @ tr', Inl e)
           | (tr', Inr u) \<Rightarrow> (Mkdir (parent (joinpath output_dir rel)) # tr @ tr', Inr True)))"
  using assms
  by (simp add: process_file_def comp_defs Let_def split: prod.splits sum.splits option.splits)

lemma apply_metadata_sidecar:
  assumes "snd (find_corresponding_json env file_path) = Inr (Some sc)"
  shows "apply_metadata env file_path out conv =
           seq (load_sidecar env sc) (\<lambda>metadata. update_metadata_with_exiftool env out metadata)"
  using find_json_some[OF assms] by (simp add: apply_metadata_def comp_defs)

text \<open>
  Claim C7.  When the output was converted or copied and the resolved sidecar cannot be
  parsed, \<open>process_file\<close> logs the parse warning, goes on to the metadata tool with the
  empty bag (the command line names the target only), and returns \<open>True\<close>: the file
  ends in success whatever the tool does.
\<close>

theorem malformed_sidecar_continues:
  assumes rel: "relative_to file_path input_dir = Inr rel"
      and mk: "mkdir_ok env (parent (joinpath output_dir rel))"
      and norm: "convert_or_copy env file_path (joinpath output_dir rel) = (tr, Inr (Some (out, conv)))"
      and sc: "snd (find_corresponding_json env file_path) = Inr (Some sc)"
      and bad: "read_json env sc = None"
  shows "process_file env file_path input_dir output_dir =
           (Mkdir (parent (joinpath output_dir rel)) # tr @
              [Log WARNING (CouldNotParseJSON sc),
               Log INFO (UpdatingMetadata out),
               Run [Str ''exiftool'', Str ''-overwrite_original'', Str (path_str out)],
               exiftool_logged env
                 [Str ''exiftool'', Str ''-overwrite_original'', Str (path_str out)] out],
            Inr True)"
proof -
  have "load_sidecar env sc = ([Log WARNING (CouldNotParseJSON sc)], Inr (JObj []))"
    using bad by (simp add: load_sidecar_def comp_defs)
  then have "apply_metadata env file_path out conv =
      ([Log WARNING (CouldNotParseJSON sc),
        Log INFO (UpdatingMetadata out),
        Run [Str ''exiftool'', Str ''-overwrite_original'', Str (path_str out)],
        exiftool_logged env
          [Str ''exiftool'', Str ''-overwrite_original'', Str (path_str out)] out], Inr ())"
    unfolding apply_metadata_sidecar[OF sc] by (simp add: seq_def update_metadata_empty)
  then show ?thesis
    unfolding process_file_steps[OF rel mk] norm by simp
qed

theorem malformed_sidecar_continues_witness:
  "relative_to (rel_path [''in'', ''a.png'']) in_dir = Inr (rel_path [''a.png'']) \<and>
   mkdir_ok (example_env [rel_path [''in'', ''a.png.json'']] (\<lambda>_. Exited 0) None [''a.png''])
     (parent (joinpath out_dir (rel_path [''a.png'']))) \<and>
   convert_or_copy (example_env [rel_path [''in'', ''a.png.json'']] (\<lambda>_. Exited 0) None [''a.png''])
     (rel_path [''in'', ''a.png'']) (joinpath out_dir (rel_path [''a.png'']))
     = ([Copy2 (rel_path [''in'', ''a.png'']) (rel_path [''out'', ''a.png''])],
        Inr (Some (rel_path [''out'', ''a.png''], False))) \<and>
   snd (find_corresponding_json
          (example_env [rel_path [''in'', ''a.png.json'']] (\<lambda>_. Exited 0) None [''a.png''])
          (rel_path [''in'', ''a.png''])) = Inr (Some (rel_path [''in'', ''a.png.json''])) \<and>
   read_json (example_env [rel_path [''in'', ''a.png.json'']] (\<lambda>_. Exited 0) None [''a.png''])
     (rel_path [''in'', ''a.png.json'']) = None \<and>
   snd (process_file
          (example_env [rel_path [''in'', ''a.png.json'']] (\<lambda>_. Exited 0) None [''a.png''])
          (rel_path [''in'', ''a.png'']) in_dir out_dir) = Inr True"
proof -
  let ?E = "example_env [rel_path [''in'', ''a.png.json'']] (\<lambda>_. Exited 0) None [''a.png'']"
  have h1: "relative_to (rel_path [''in'', ''a.png'']) in_dir = Inr (rel_path [''a.png''])"
    by (simp add: relative_to_def rel_path_def in_dir_def)
  have h2: "mkdir_ok ?E (parent (joinpath out_dir (rel_path [''a.png''])))"
    by (simp add: example_env_def)
  have h3: "convert_or_copy ?E (rel_path [''in'', ''a.png'']) (joinpath out_dir (rel_path [''a.png'']))
     = ([Copy2 (rel_path [''in'', ''a.png'']) (rel_path [''out'', ''a.png''])],
        Inr (Some (rel_path [''out'', ''a.png''], False)))"
    by code_simp
  have h4: "snd (find_corresponding_json ?E (rel_path [''in'', ''a.png'']))
      = Inr (Some (rel_path [''in'', ''a.png.json'']))"
    by code_simp
  have h5: "read_json ?E (rel_path [''in'', ''a.png.json'']) = None"
    by (simp add: example_env_def)
  have "snd (process_file ?E (rel_path [''in'', ''a.png'']) in_dir out_dir) = Inr True"
    using malformed_sidecar_continues[OF h1 h2 h3 h4 h5] by simp
  then show ?thesis using h1 h2 h3 h4 h5 by blast
qed

lemma seq_assoc: "seq (seq m f) g = seq m (\<lambda>x. seq (f x) g)"
  by (auto simp: seq_def split: prod.splits sum.splits)

lemma seq_ret: "seq (ret x) f = f x"
  by (simp add: seq_def ret_def split: prod.splits)

lemma seq_raises: "snd m = Inl e \<Longrightarrow> snd (seq m f) = Inl e"
  by (auto simp: seq_def split: prod.splits sum.splits)

lemma seq_returns: "snd m = Inr x \<Longrightarrow> snd (seq m f) = snd (f x)"
  by (auto simp: seq_def split: prod.splits sum.splits)

lemma visit_files_append:
  "visit_files env i out r (xs @ ys) c =
     seq (visit_files env i out r xs c) (\<lambda>c'. visit_files env i out r ys c')"
proof (induction xs arbitrary: c)
  case Nil
  then show ?case by (simp add: seq_ret)
next
  case (Cons x xs)
  have "visit_files env i out r (xs @ ys) =
          (\<lambda>c. seq (visit_files env i out r xs c) (\<lambda>c'. visit_files env i out r ys c'))"
    by (rule ext) (rule Cons.IH)
  then show ?case by (simp add: seq_assoc)
qed

lemma walk_append:
  "walk env i out (xs @ ys) c = seq (walk env i out xs c) (\<lambda>c'. walk env i out ys c')"
proof (induction xs arbitrary: c)
  case Nil
  then show ?case by (simp add: seq_ret)
next
  case (Cons x xs)
  obtain r ds fs where x: "x = (r, ds, fs)" by (cases x) auto
  have "walk env i out (xs @ ys) =
          (\<lambda>c. seq (walk env i out xs c) (\<lambda>c'. walk env i out ys c'))"
    by (rule ext) (rule Cons.IH)
  then show ?case by (simp add: x seq_assoc)
qed

lemma exception_aborts_walk:
  assumes listing: "os_walk env input_dir = before @ (root_dir, dirs, pre @ fname # post) # after"
      and reached1: "snd (walk env input_dir output_dir before initial_counters) = Inr c1"
      and reached2: "snd (visit_files env input_dir output_dir root_dir pre c1) = Inr c2"
      and raised: "snd (visit_file env input_dir output_dir root_dir fname c2) = Inl e"
  shows "snd (process_directory env input_dir output_dir) = Inl e"
proof -
  have "snd (visit_files env input_dir output_dir root_dir (fname # post) c2) = Inl e"
    using raised by (simp add: seq_raises)
  then have "snd (visit_files env input_dir output_dir root_dir (pre @ fname # post) c1) = Inl e"
    unfolding visit_files_append using reached2 by (simp add: seq_returns)
  then have "snd (walk env input_dir output_dir ((root_dir, dirs, pre @ fname # post) # after) c1) = Inl e"
    by (simp add: seq_raises)
  then have "snd (walk env input_dir output_dir (os_walk env input_dir) initial_counters) = Inl e"
    unfolding listing walk_append using reached1 by (simp add: seq_returns)
  then show ?thesis by (simp add: process_directory_def seq_raises)
qed

lemma visit_file_raises:
  assumes "lower (suffix (join_name root_dir fname)) \<in> SUPPORTED_MEDIA_EXTENSIONS"
      and "snd (process_file env (join_name root_dir fname) input_dir output_dir) = Inl e"
  shows "snd (visit_file env input_dir output_dir root_dir fname c) = Inl e"
  using assms by (auto simp: visit_file_def Let_def comp_defs split: prod.splits sum.splits)

text \<open>
  Claim C9.  When the walk reaches a supported file whose output was converted or copied
  and whose sidecar parses to a value that is neither a dict nor a non-empty list whose
  first element is a dict, the first key lookup of the metadata applier raises
  \<open>AttributeError\<close>; nothing catches it, so \<open>process_file\<close> and the whole
  \<open>process_directory\<close> end with that exception instead of a failed file.
\<close>

theorem malformed_root_aborts_walk:
  assumes listing: "os_walk env input_dir = before @ (root_dir, dirs, pre @ fname # post) # after"
      and reached1: "snd (walk env input_dir output_dir before initial_counters) = Inr c1"
      and reached2: "snd (visit_files env input_dir output_dir root_dir pre c1) = Inr c2"
      and supported: "lower (suffix (join_name root_dir fname)) \<in> SUPPORTED_MEDIA_EXTENSIONS"
      and rel: "relative_to (join_name root_dir fname) input_dir = Inr rel"
      and mk: "mkdir_ok env (parent (joinpath output_dir rel))"
      and norm: "snd (convert_or_copy env (join_name root_dir fname) (joinpath output_dir rel))
                   = Inr (Some (out, conv))"
      and sc: "snd (find_corresponding_json env (join_name root_dir fname)) = Inr (Some sc)"
      and parsed: "read_json env sc = Some v"
      and no_dict: "\<not> is_dict v"
      and no_list: "\<forall>x xs. v = JArr (x # xs) \<longrightarrow> \<not> is_dict x"
  shows "snd (process_file env (join_name root_dir fname) input_dir output_dir) = Inl AttributeError \<and>
         snd (process_directory env input_dir output_dir) = Inl AttributeError"
proof -
  let ?file = "join_name root_dir fname"
  obtain md where md: "load_sidecar env sc = ([], Inr md)" "\<not> is_dict md"
  proof (cases v)
    case (JArr ys)
    then show ?thesis using parsed no_dict no_list that
      by (cases ys) (auto simp: load_sidecar_def comp_defs)
  qed (use parsed no_dict that in \<open>auto simp: load_sidecar_def comp_defs\<close>)
  have "snd (apply_metadata env ?file out conv) = Inl AttributeError"
    unfolding apply_metadata_sidecar[OF sc] md(1)
    by (simp add: seq_def update_metadata_not_dict[OF md(2)])
  then have pf: "snd (process_file env ?file input_dir output_dir) = Inl AttributeError"
    unfolding process_file_steps[OF rel mk] using norm
    by (auto split: prod.splits sum.splits option.splits)
  have "snd (visit_file env input_dir output_dir root_dir fname c2) = Inl AttributeError"
    by (rule visit_file_raises[OF supported pf])
  then have "snd (process_directory env input_dir output_dir) = Inl AttributeError"
    by (rule exception_aborts_walk[OF listing reached1 reached2])
  then show ?thesis using pf by simp
qed

theorem malformed_root_aborts_walk_witness:
  "read_json (example_env [rel_path [''in'', ''a.jpg.json'']] (\<lambda>_. Exited 0) (Some (JArr [])) [''a.jpg''])
     (rel_path [''in'', ''a.jpg.json'']) = Some (JArr []) \<and>
   snd (process_file
          (example_env [rel_path [''in'', ''a.jpg.json'']] (\<lambda>_. Exited 0) (Some (JArr [])) [''a.jpg''])
          (join_name in_dir ''a.jpg'') in_dir out_dir) = Inl AttributeError \<and>
   snd (process_directory
          (example_env [rel_path [''in'', ''a.jpg.json'']] (\<lambda>_. Exited 0) (Some (JArr [])) [''a.jpg''])
          in_dir out_dir) = Inl AttributeError"
proof -
  let ?E = "example_env [rel_path [''in'', ''a.jpg.json'']] (\<lambda>_. Exited 0) (Some (JArr [])) [''a.jpg'']"
  have listing: "os_walk ?E in_dir = [] @ (in_dir, [], [] @ ''a.jpg'' # []) # []"
    by (simp add: example_env_def)
  have r1: "snd (walk ?E in_dir out_dir [] initial_counters) = Inr initial_counters"
    by (simp add: ret_def)
  have r2: "snd (visit_files ?E in_dir out_dir in_dir [] initial_counters) = Inr initial_counters"
    by (simp add: ret_def)
  have sup: "lower (suffix (join_name in_dir ''a.jpg'')) \<in> SUPPORTED_MEDIA_EXTENSIONS"
    by code_simp
  have rel: "relative_to (join_name in_dir ''a.jpg'') in_dir = Inr (rel_path [''a.jpg''])"
    by (simp add: relative_to_def join_name_def joinpath_def in_dir_def rel_path_def)
  have mk: "mkdir_ok ?E (parent (joinpath out_dir (rel_path [''a.jpg''])))"
    by (simp add: example_env_def)
  have norm: "snd (convert_or_copy ?E (join_name in_dir ''a.jpg'') (joinpath out_dir (rel_path [''a.jpg''])))
                = Inr (Some (rel_path [''out'', ''a.jpg''], False))"
    by code_simp
  have sc: "snd (find_corresponding_json ?E (join_name in_dir ''a.jpg''))
              = Inr (Some (rel_path [''in'', ''a.jpg.json'']))"
    by code_simp
  have parsed: "read_json ?E (rel_path [''in'', ''a.jpg.json'']) = Some (JArr [])"
    by (simp add: example_env_def)
  have nd: "\<not> is_dict (JArr [])" by simp
  have nl: "\<forall>x xs. JArr [] = JArr (x # xs) \<longrightarrow> \<not> is_dict x" by simp
  show ?thesis
    using malformed_root_aborts_walk[OF listing r1 r2 sup rel mk norm sc parsed nd nl] parsed
    by simp
qed

lemma visit_file_unsupported:
  "lower (suffix (join_name root_dir fname)) \<notin> SUPPORTED_MEDIA_EXTENSIONS \<Longrightarrow>
   visit_file env i out root_dir fname c = ([], Inr c)"
  by (simp add: visit_file_def ret_def)

lemma visit_files_filter:
  "visit_files env i out r (filter (\<lambda>f. lower (suffix (join_name r f)) \<in> SUPPORTED_MEDIA_EXTENSIONS) fs) c
     = visit_files env i out r fs c"
proof (induction fs arbitrary: c)
  case Nil
  then show ?case by simp
next
  case (Cons f fs)
  have ih: "visit_files env i out r (filter (\<lambda>f. lower (suffix (join_name r f)) \<in> SUPPORTED_MEDIA_EXTENSIONS) fs)
     = visit_files env i out r fs"
    by (rule ext) (rule Cons.IH)
  show ?case
  proof (cases "lower (suffix (join_name r f)) \<in> SUPPORTED_MEDIA_EXTENSIONS")
    case True
    then show ?thesis by (simp add: ih)
  next
    case False
    then show ?thesis
      using visit_file_unsupported[OF False, of env i out c]
      by (simp add: seq_def Cons.IH split: prod.splits)
  qed
qed

text \<open>
  Claim C8.  A file whose lower-cased suffix is outside the supported set is skipped by
  the loop body: no event happens (nothing is logged, converted, copied or tagged) and the
  counters (total, per-extension counts, failed list) stay as they were; the visit of a
  directory listing is the same with the file as without it.
\<close>

theorem unsupported_ignored:
  assumes "lower (suffix (join_name root_dir fname)) \<notin> SUPPORTED_MEDIA_EXTENSIONS"
  shows "visit_file env input_dir output_dir root_dir fname c = ([], Inr c) \<and>
         visit_files env input_dir output_dir root_dir (pre @ fname # post) c0 =
         visit_files env input_dir output_dir root_dir (pre @ post) c0"
proof -
  have 1: "visit_file env input_dir output_dir root_dir fname c = ([], Inr c)" for c
    using assms by (rule visit_file_unsupported)
  have "visit_files env input_dir output_dir root_dir (fname # post) c' =
        visit_files env input_dir output_dir root_dir post c'" for c'
    by (simp add: 1 seq_def split: prod.splits)
  then show ?thesis
    using 1 by (simp add: visit_files_append)
qed

theorem unsupported_ignored_witness:
  "lower (suffix (join_name in_dir ''notes.txt'')) \<notin> SUPPORTED_MEDIA_EXTENSIONS \<and>
   visit_file (example_env [] (\<lambda>_. Exited 0) None [''notes.txt'']) in_dir out_dir in_dir
     ''notes.txt'' initial_counters = ([], Inr initial_counters)"
proof -
  have h: "lower (suffix (join_name in_dir ''notes.txt'')) \<notin> SUPPORTED_MEDIA_EXTENSIONS"
    by code_simp
  show ?thesis
    using unsupported_ignored[OF h, of "example_env [] (\<lambda>_. Exited 0) None [''notes.txt'']"
        in_dir out_dir initial_counters "[]" "[]" initial_counters] h
    by simp
qed

lemma walk_filter:
  "walk env i out (map (\<lambda>(r, ds, fs).
        (r, ds, filter (\<lambda>f. lower (suffix (join_name r f)) \<in> SUPPORTED_MEDIA_EXTENSIONS) fs)) ws) c
     = walk env i out ws c"
proof (induction ws arbitrary: c)
  case Nil
  then show ?case by simp
next
  case (Cons w ws)
  obtain r ds fs where w: "w = (r, ds, fs)" by (cases w) auto
  have ih: "walk env i out (map (\<lambda>(r, ds, fs).
        (r, ds, filter (\<lambda>f. lower (suffix (join_name r f)) \<in> SUPPORTED_MEDIA_EXTENSIONS) fs)) ws)
     = walk env i out ws"
    by (rule ext) (rule Cons.IH)
  show ?case by (simp add: w visit_files_filter ih)
qed

lemma tools_listing_free:
  "subprocess_run (env\<lparr>os_walk := w\<rparr>) args chk = subprocess_run env args chk"
  "convert_heic_to_jpg (env\<lparr>os_walk := w\<rparr>) a b = convert_heic_to_jpg env a b"
  "convert_video_to_mp4 (env\<lparr>os_walk := w\<rparr>) a b = convert_video_to_mp4 env a b"
  "copy_metadata (env\<lparr>os_walk := w\<rparr>) a b = copy_metadata env a b"
  "update_metadata_with_exiftool (env\<lparr>os_walk := w\<rparr>) a md = update_metadata_with_exiftool env a md"
  "find_corresponding_json (env\<lparr>os_walk := w\<rparr>) a = find_corresponding_json env a"
  "load_sidecar (env\<lparr>os_walk := w\<rparr>) a = load_sidecar env a"
  by (simp_all add: subprocess_run_def convert_heic_to_jpg_def convert_video_to_mp4_def
        copy_metadata_def update_metadata_with_exiftool_def find_corresponding_json_def
        load_sidecar_def cong: if_cong)

lemma steps_listing_free:
  "convert_or_copy (env\<lparr>os_walk := w\<rparr>) f p = convert_or_copy env f p"
  "apply_metadata (env\<lparr>os_walk := w\<rparr>) f p b = apply_metadata env f p b"
  by (simp_all add: convert_or_copy_def apply_metadata_def tools_listing_free Let_def cong: if_cong)

lemma process_file_listing_free:
  "process_file (env\<lparr>os_walk := w\<rparr>) f i out = process_file env f i out"
  by (simp add: process_file_def steps_listing_free Let_def cong: if_cong sum.case_cong)

lemma visit_file_listing_free:
  "visit_file (env\<lparr>os_walk := w\<rparr>) i out r f c = visit_file env i out r f c"
  by (simp add: visit_file_def process_file_listing_free Let_def cong: if_cong)

lemma visit_files_listing_free:
  "visit_files (env\<lparr>os_walk := w\<rparr>) i out r fs c = visit_files env i out r fs c"
proof (induction fs arbitrary: c)
  case Nil
  then show ?case by simp
next
  case (Cons f fs)
  have "visit_files (env\<lparr>os_walk := w\<rparr>) i out r fs = visit_files env i out r fs"
    by (rule ext) (rule Cons.IH)
  then show ?case by (simp add: visit_file_listing_free)
qed

lemma walk_listing_free:
  "walk (env\<lparr>os_walk := w\<rparr>) i out ws c = walk env i out ws c"
proof (induction ws arbitrary: c)
  case Nil
  then show ?case by simp
next
  case (Cons x ws)
  obtain r ds fs where x: "x = (r, ds, fs)" by (cases x) auto
  have "walk (env\<lparr>os_walk := w\<rparr>) i out ws = walk env i out ws"
    by (rule ext) (rule Cons.IH)
  then show ?case by (simp add: x visit_files_listing_free)
qed

lemma run_without_unsupported:
  "process_directory (supported_only env) input_dir output_dir =
   process_directory env input_dir output_dir"
  by (simp add: process_directory_def supported_only_def walk_listing_free walk_filter)

lemma bump_absent:
  "k \<notin> fst ` set m \<Longrightarrow> map (\<lambda>(k', v). (k', if k' = k then v + 1 else v)) m = (m :: (string \<times> int) list)"
  by (induction m) (auto simp: case_prod_beta)

lemma bump_keys:
  "map fst (map (\<lambda>(k', v). (k', if k' = k then v + 1 else v)) m) = map fst (m :: (string \<times> int) list)"
  by (induction m) (auto simp: case_prod_beta)

lemma bump_present:
  "k \<in> fst ` set m \<Longrightarrow> distinct (map fst m) \<Longrightarrow>
   sum_list (map snd (map (\<lambda>(k', v). (k', if k' = k then v + 1 else v)) m))
     = sum_list (map snd (m :: (string \<times> int) list)) + 1"
proof (induction m)
  case Nil
  then show ?case by simp
next
  case (Cons a m)
  obtain k' v where a: "a = (k', v)" by (cases a) auto
  show ?case
  proof (cases "k' = k")
    case True
    then have "k \<notin> fst ` set m" using Cons.prems(2) a by auto
    then have "map (\<lambda>(k', v). (k', if k' = k then v + 1 else v)) m = m"
      by (rule bump_absent)
    then have "sum_list (map snd (map (\<lambda>(k', v). (k', if k' = k then v + 1 else v)) m))
       = sum_list (map snd m)" by (rule arg_cong)
    then show ?thesis using True a by (simp del: map_map)
  next
    case False
    then have "k \<in> fst ` set m" using Cons.prems(1) a by auto
    then have "sum_list (map snd (map (\<lambda>(k', v). (k', if k' = k then v + 1 else v)) m))
     = sum_list (map snd m) + 1" using Cons.IH Cons.prems(2) by simp
    then show ?thesis using False a by (simp del: map_map)
  qed
qed

lemma increment_sum:
  assumes "distinct (map fst m)"
  shows "sum_list (map snd (increment m k)) = sum_list (map snd m) + 1"
proof (cases "k \<in> fst ` set m")
  case False
  then show ?thesis by (simp add: increment_def)
next
  case True
  then show ?thesis using bump_present[OF True assms] by (simp add: increment_def del: map_map)
qed

lemma increment_distinct:
  assumes "distinct (map fst m)"
  shows "distinct (map fst (increment m k))"
proof (cases "k \<in> fst ` set m")
  case False
  then show ?thesis using assms by (simp add: increment_def)
next
  case True
  then show ?thesis using assms bump_keys[of k m] by (simp add: increment_def del: map_map)
qed


lemma visit_file_supported:
  assumes "lower (suffix (join_name r f)) \<in> SUPPORTED_MEDIA_EXTENSIONS"
      and "process_file env (join_name r f) i out = (tr, Inr ok)"
  shows "visit_file env i out r f c =
           (Log INFO (ProcessingFile (join_name r f)) # tr,
            Inr (if ok
                 then c\<lparr>total_files := total_files c + 1,
                        processed_files := processed_files c + 1,
                        extension_map := increment (extension_map c) (lower (suffix (join_name r f)))\<rparr>
                 else c\<lparr>total_files := total_files c + 1,
                        failed_files := failed_files c @ [path_str (join_name r f)]\<rparr>))"
  using assms by (simp add: visit_file_def comp_defs Let_def)

lemma visit_file_consistent:
  assumes "consistent c" "snd (visit_file env i out r f c) = Inr c'"
  shows "consistent c'"
proof (cases "lower (suffix (join_name r f)) \<in> SUPPORTED_MEDIA_EXTENSIONS")
  case False
  then show ?thesis using assms by (simp add: visit_file_def ret_def)
next
  case True
  obtain tr res where pf: "process_file env (join_name r f) i out = (tr, res)"
    by (cases "process_file env (join_name r f) i out") auto
  show ?thesis
  proof (cases res)
    case (Inl e)
    then have "snd (visit_file env i out r f c) = Inl e"
      using True pf by (simp add: visit_file_def comp_defs Let_def)
    then show ?thesis using assms(2) by simp
  next
    case (Inr ok)
    have d: "distinct (map fst (extension_map c))"
      and s: "sum_list (map snd (extension_map c)) = processed_files c"
      and t: "total_files c = processed_files c + int (length (failed_files c))"
      using assms(1) by (simp_all add: consistent_def)
    show ?thesis
    proof (cases ok)
      case True
      have "c' = c\<lparr>total_files := total_files c + 1,
                        processed_files := processed_files c + 1,
                        extension_map := increment (extension_map c) (lower (suffix (join_name r f)))\<rparr>"
        using visit_file_supported[OF \<open>lower (suffix (join_name r f)) \<in> SUPPORTED_MEDIA_EXTENSIONS\<close>
            pf[unfolded Inr], of c] assms(2) True by simp
      then show ?thesis
        using increment_sum[OF d] increment_distinct[OF d] s t by (simp add: consistent_def)
    next
      case False
      have "c' = c\<lparr>total_files := total_files c + 1,
                        failed_files := failed_files c @ [path_str (join_name r f)]\<rparr>"
        using visit_file_supported[OF \<open>lower (suffix (join_name r f)) \<in> SUPPORTED_MEDIA_EXTENSIONS\<close>
            pf[unfolded Inr], of c] assms(2) False by simp
      then show ?thesis using d s t by (simp add: consistent_def)
    qed
  qed
qed

lemma seq_returns_split:
  assumes "snd (seq m f) = Inr y"
  obtains x where "snd m = Inr x" "snd (f x) = Inr y"
proof (cases m)
  case (Pair tr res)
  show ?thesis
  proof (cases res)
    case (Inl e)
    then show ?thesis using assms Pair by (simp add: seq_def)
  next
    case (Inr x)
    then have "snd (f x) = Inr y" using assms Pair by (simp add: seq_def split: prod.splits)
    then show ?thesis using that Inr Pair by simp
  qed
qed

lemma visit_files_consistent:
  "consistent c \<Longrightarrow> snd (visit_files env i out r fs c) = Inr c' \<Longrightarrow> consistent c'"
proof (induction fs arbitrary: c)
  case Nil
  then show ?case by (simp add: ret_def)
next
  case (Cons f fs)
  from Cons.prems(2)
  have "snd (seq (visit_file env i out r f c) (\<lambda>c'. visit_files env i out r fs c')) = Inr c'"
    by simp
  then obtain c1 where
    1: "snd (visit_file env i out r f c) = Inr c1" and
    2: "snd (visit_files env i out r fs c1) = Inr c'"
    by (rule seq_returns_split)
  show ?case using Cons.IH[OF visit_file_consistent[OF Cons.prems(1) 1] 2] .
qed

lemma walk_consistent:
  "consistent c \<Longrightarrow> snd (walk env i out ws c) = Inr c' \<Longrightarrow> consistent c'"
proof (induction ws arbitrary: c)
  case Nil
  then show ?case by (simp add: ret_def)
next
  case (Cons w ws)
  obtain r ds fs where w: "w = (r, ds, fs)" by (cases w) auto
  from Cons.prems(2)
  have "snd (seq (visit_files env i out r fs c) (\<lambda>c'. walk env i out ws c')) = Inr c'"
    by (simp add: w)
  then obtain c1 where
    1: "snd (visit_files env i out r fs c) = Inr c1" and
    2: "snd (walk env i out ws c1) = Inr c'"
    by (rule seq_returns_split)
  show ?case using Cons.IH[OF visit_files_consistent[OF Cons.prems(1) 1] 2] .
qed

lemma sum_insort_key:
  "sum_list (map snd (insort_key f x xs)) = snd x + sum_list (map (snd :: _ \<Rightarrow> int) xs)"
  by (induction xs) auto

lemma sum_sort_key:
  "sum_list (map snd (sort_key f xs)) = sum_list (map (snd :: _ \<Rightarrow> int) xs)"
  by (induction xs) (auto simp: sum_insort_key)

lemma initial_consistent: "consistent initial_counters"
  by (simp add: consistent_def initial_counters_def)

lemma process_directory_after_walk:
  assumes "walk env input_dir output_dir (os_walk env input_dir) initial_counters = (tr, Inr c)"
  shows "process_directory env input_dir output_dir =
           (tr @ [Log INFO (FinalReport (final_report input_dir output_dir c)),
                  WriteText (join_name output_dir ''report.txt'') (final_report input_dir output_dir c),
                  if write_ok env (join_name output_dir ''report.txt'')
                  then Log INFO (ReportWritten (join_name output_dir ''report.txt''))
                  else Log ERROR ReportWriteFailed],
            Inr ())"
  using assms by (simp add: process_directory_def comp_defs Let_def)

text \<open>
  Claim C10.  When the walk ends, the report that \<open>process_directory\<close> logs and writes is
  consistent: the total equals the processed count plus the length of the failed list,
  the Failed number (total minus processed) equals the length of the failed list, and the
  per-extension counts sum to the processed count.
\<close>

theorem report_consistent:
  assumes "walk env input_dir output_dir (os_walk env input_dir) initial_counters = (tr, Inr c)"
  shows "rep_total (final_report input_dir output_dir c) =
           rep_processed (final_report input_dir output_dir c) +
           int (length (rep_failed_files (final_report input_dir output_dir c))) \<and>
         rep_failed (final_report input_dir output_dir c) =
           int (length (rep_failed_files (final_report input_dir output_dir c))) \<and>
         sum_list (map snd (rep_types (final_report input_dir output_dir c))) =
           rep_processed (final_report input_dir output_dir c) \<and>
         Log INFO (FinalReport (final_report input_dir output_dir c))
           \<in> set (fst (process_directory env input_dir output_dir))"
proof -
  have "snd (walk env input_dir output_dir (os_walk env input_dir) initial_counters) = Inr c"
    using assms by simp
  then have "consistent c" by (rule walk_consistent[OF initial_consistent])
  then show ?thesis
    unfolding process_directory_after_walk[OF assms]
    by (simp add: consistent_def final_report_def sum_sort_key)
qed

theorem report_consistent_witness:
  "snd (walk (example_env [] (\<lambda>args. if hd args = Str ''magick'' then Exited 1 else Exited 0) None
               [''a.jpg'', ''b.heic'', ''notes.txt''])
          in_dir out_dir
          (os_walk (example_env [] (\<lambda>args. if hd args = Str ''magick'' then Exited 1 else Exited 0) None
               [''a.jpg'', ''b.heic'', ''notes.txt'']) in_dir)
          initial_counters)
     = Inr \<lparr>total_files = 2, processed_files = 1, failed_files = [''in/b.heic''],
            extension_map = [(''.jpg'', 1)]\<rparr> \<and>
   rep_failed (final_report in_dir out_dir
      \<lparr>total_files = 2, processed_files = 1, failed_files = [''in/b.heic''],
       extension_map = [(''.jpg'', 1)]\<rparr>)
     = int (length (rep_failed_files (final_report in_dir out_dir
      \<lparr>total_files = 2, processed_files = 1, failed_files = [''in/b.heic''],
       extension_map = [(''.jpg'', 1)]\<rparr>)))"
proof -
  let ?E = "example_env [] (\<lambda>args. if hd args = Str ''magick'' then Exited 1 else Exited 0) None
               [''a.jpg'', ''b.heic'', ''notes.txt'']"
  let ?C = "\<lparr>total_files = 2, processed_files = 1, failed_files = [''in/b.heic''],
            extension_map = [(''.jpg'', 1)]\<rparr>"
  have h: "snd (walk ?E in_dir out_dir (os_walk ?E in_dir) initial_counters) = Inr ?C"
    by code_simp
  then have "walk ?E in_dir out_dir (os_walk ?E in_dir) initial_counters
      = (fst (walk ?E in_dir out_dir (os_walk ?E in_dir) initial_counters), Inr ?C)"
    by (metis prod.collapse)
  from report_consistent[OF this] h show ?thesis by blast
qed

lemma heic_tool_nonzero:
  assumes "spawn env [Str ''magick'', Str ''convert'', Str (path_str a), Str ''-auto-orient'',
                      Str (path_str b)] = Exited rc" "rc \<noteq> 0"
  shows "convert_heic_to_jpg env a b =
           ([Log INFO (ConvertingHEIC a b),
             Run [Str ''magick'', Str ''convert'', Str (path_str a), Str ''-auto-orient'',
                  Str (path_str b)],
             Log ERROR (HEICConversionFailed a)], Inr False)"
  using assms by (simp add: convert_heic_to_jpg_def subprocess_run_def comp_defs)

lemma heic_tool_missing:
  assumes "spawn env [Str ''magick'', Str ''convert'', Str (path_str a), Str ''-auto-orient'',
                      Str (path_str b)] = SpawnFailed"
  shows "convert_heic_to_jpg env a b =
           ([Log INFO (ConvertingHEIC a b),
             Run [Str ''magick'', Str ''convert'', Str (path_str a), Str ''-auto-orient'',
                  Str (path_str b)]], Inl FileNotFoundError)"
  using assms by (simp add: convert_heic_to_jpg_def subprocess_run_def comp_defs)

lemma video_tool_missing:
  assumes "\<not> which env ''ffmpeg''"
  shows "convert_video_to_mp4 env a b = ([Log ERROR FfmpegNotFound], Inr False)"
  using assms by (simp add: convert_video_to_mp4_def comp_defs)

lemma video_tool_nonzero:
  assumes "which env ''ffmpeg''" "spawn env (ffmpeg_args a b) = Exited rc" "rc \<noteq> 0"
  shows "convert_video_to_mp4 env a b =
           ([Log INFO (Converting a b), Run (ffmpeg_args a b),
             Log ERROR (VideoConversionFailed a)], Inr False)"
  using assms by (simp add: convert_video_to_mp4_def subprocess_run_def comp_defs)

lemma failed_conversion_stops_file:
  assumes "relative_to file_path input_dir = Inr rel"
      and "mkdir_ok env (parent (joinpath output_dir rel))"
      and "convert_or_copy env file_path (joinpath output_dir rel) = (tr, Inr None)"
  shows "process_file env file_path input_dir output_dir =
           (Mkdir (parent (joinpath output_dir rel)) # tr, Inr False)"
  unfolding process_file_steps[OF assms(1,2)] assms(3) by simp

lemma heic_failure_per_file:
  assumes "lower (suffix file_path) = ''.heic''"
      and "with_suffix output_file0 ''.jpg'' = Inr jpg"
      and "spawn env [Str ''magick'', Str ''convert'', Str (path_str file_path),
                      Str ''-auto-orient'', Str (path_str jpg)] = Exited rc" "rc \<noteq> 0"
  shows "convert_or_copy env file_path output_file0 =
           ([Log INFO (ConvertingHEIC file_path jpg),
             Run [Str ''magick'', Str ''convert'', Str (path_str file_path), Str ''-auto-orient'',
                  Str (path_str jpg)],
             Log ERROR (HEICConversionFailed file_path)], Inr None)"
  using assms(1,2) heic_tool_nonzero[OF assms(3,4)]
  by (simp add: convert_or_copy_def comp_defs)

lemma video_failure_per_file:
  assumes "lower (suffix file_path) \<in> {''.mov'', ''.avi''}"
      and "with_suffix output_file0 ''.mp4'' = Inr mp4"
      and "\<not> which env ''ffmpeg''"
  shows "convert_or_copy env file_path output_file0 = ([Log ERROR FfmpegNotFound], Inr None)"
  using assms(1,2) video_tool_missing[OF assms(3)]
  by (auto simp: convert_or_copy_def comp_defs)

lemma video_nonzero_per_file:
  assumes "lower (suffix file_path) \<in> {''.mov'', ''.avi''}"
      and "with_suffix output_file0 ''.mp4'' = Inr mp4"
      and "which env ''ffmpeg''" "spawn env (ffmpeg_args file_path mp4) = Exited rc" "rc \<noteq> 0"
  shows "convert_or_copy env file_path output_file0 =
           ([Log INFO (Converting file_path mp4), Run (ffmpeg_args file_path mp4),
             Log ERROR (VideoConversionFailed file_path)], Inr None)"
  using assms(1,2) video_tool_nonzero[OF assms(3,4,5)]
  by (auto simp: convert_or_copy_def comp_defs)

text \<open>
  Claim C6, at the input where the code departs from it.  The directory holds
  \<open>photo.heic\<close> and \<open>magick\<close> cannot be started: the \<open>FileNotFoundError\<close> of
  \<open>subprocess.run\<close> is not a \<open>CalledProcessError\<close>, so \<open>convert_heic_to_jpg\<close> does not
  catch it and the whole run ends with it; no report is made.
\<close>

theorem heic_converter_missing_aborts:
  "process_directory
     (example_env [] (\<lambda>args. if hd args = Str ''magick'' then SpawnFailed else Exited 0) None
        [''photo.heic''])
     in_dir out_dir
   = ([Log INFO (ProcessingFile (rel_path [''in'', ''photo.heic''])),
       Mkdir (rel_path [''out'']),
       Log INFO (ConvertingHEIC (rel_path [''in'', ''photo.heic'']) (rel_path [''out'', ''photo.jpg''])),
       Run [Str ''magick'', Str ''convert'', Str ''in/photo.heic'', Str ''-auto-orient'',
            Str ''out/photo.jpg'']],
      Inl FileNotFoundError)"
  by code_simp

lemma update_metadata_returns:
  assumes "snd (timestamp_args target metadata) = Inr ts"
      and "snd (gps_args metadata) = Inr gps"
      and "snd (description_args metadata) = Inr desc"
  shows "update_metadata_with_exiftool env target metadata =
           (fst (timestamp_args target metadata) @ fst (gps_args metadata) @
            fst (description_args metadata) @
              [Log INFO (UpdatingMetadata target),
               Run ([Str ''exiftool'', Str ''-overwrite_original''] @ ts @ gps @ desc @
                    [Str (path_str target)]),
               exiftool_logged env ([Str ''exiftool'', Str ''-overwrite_original''] @ ts @ gps @
                    desc @ [Str (path_str target)]) target],
            Inr ())"
proof -
  obtain t1 where 1: "timestamp_args target metadata = (t1, Inr ts)"
    using assms(1) by (cases "timestamp_args target metadata") auto
  obtain t2 where 2: "gps_args metadata = (t2, Inr gps)"
    using assms(2) by (cases "gps_args metadata") auto
  obtain t3 where 3: "description_args metadata = (t3, Inr desc)"
    using assms(3) by (cases "description_args metadata") auto
  show ?thesis
    by (simp add: update_metadata_with_exiftool_def 1 2 3 subprocess_run_def exiftool_logged_def
        comp_defs Let_def split: run_result.splits)
qed

lemma copy_metadata_nonzero:
  assumes "spawn env [Str ''exiftool'', Str ''-overwrite_original'', Str ''-TagsFromFile'',
                Str (path_str src), Str ''-All:All'', Str (path_str dst)] = Exited rc" "rc \<noteq> 0"
  shows "copy_metadata env src dst =
           ([Log INFO (CopyingMetadata src dst),
             Run [Str ''exiftool'', Str ''-overwrite_original'', Str ''-TagsFromFile'',
                  Str (path_str src), Str ''-All:All'', Str (path_str dst)],
             Log ERROR (MetadataCopyFailed src dst)], Inr False)"
  using assms by (simp add: copy_metadata_def subprocess_run_def comp_defs)

text \<open>
  Claim C5 at a concrete run.  The directory holds \<open>a.jpg\<close> and its sidecar, and
  \<open>exiftool\<close> ends with return code 1.  The error is logged, and the report counts the
  file as processed: the failed list is empty and Failed is 0.
\<close>

theorem metadata_failure_not_recorded:
  "process_directory
     (example_env [rel_path [''in'', ''a.jpg.json'']]
        (\<lambda>args. if hd args = Str ''exiftool'' then Exited 1 else Exited 0) (Some (JObj []))
        [''a.jpg''])
     in_dir out_dir
   = ([Log INFO (ProcessingFile (rel_path [''in'', ''a.jpg''])),
       Mkdir (rel_path [''out'']),
       Copy2 (rel_path [''in'', ''a.jpg'']) (rel_path [''out'', ''a.jpg'']),
       Log INFO (UpdatingMetadata (rel_path [''out'', ''a.jpg''])),
       Run [Str ''exiftool'', Str ''-overwrite_original'', Str ''out/a.jpg''],
       Log ERROR (ExifToolError (rel_path [''out'', ''a.jpg''])),
       Log INFO (FinalReport
         \<lparr>rep_input_dir = rel_path [''in''], rep_output_dir = rel_path [''out''],
          rep_total = 1, rep_processed = 1, rep_failed = 0,
          rep_types = [(''.jpg'', 1)], rep_failed_files = []\<rparr>),
       WriteText (rel_path [''out'', ''report.txt''])
         \<lparr>rep_input_dir = rel_path [''in''], rep_output_dir = rel_path [''out''],
          rep_total = 1, rep_processed = 1, rep_failed = 0,
          rep_types = [(''.jpg'', 1)], rep_failed_files = []\<rparr>,
       Log INFO (ReportWritten (rel_path [''out'', ''report.txt'']))],
      Inr ())"
  by code_simp

text \<open>
  Claim C5 as the code has it.  Let the output of a file be converted or copied and let
  \<open>exiftool\<close> end with a non-zero return code whenever it is run.  With a sidecar whose
  fields give a command line, the error is logged and \<open>process_file\<close> returns \<open>True\<close>: the
  file counts as processed.  With no sidecar after a conversion, the failed tag copy is
  logged and \<open>process_file\<close> returns.  In both cases no exception leaves \<open>process_file\<close>,
  so the walk goes on.
\<close>

theorem metadata_failure_logged:
  assumes rel: "relative_to file_path input_dir = Inr rel"
      and mk: "mkdir_ok env (parent (joinpath output_dir rel))"
      and norm: "convert_or_copy env file_path (joinpath output_dir rel) = (tr, Inr (Some (out, conv)))"
      and fails: "\<forall>args. hd args = Str ''exiftool'' \<longrightarrow> (\<exists>rc. rc \<noteq> 0 \<and> spawn env args = Exited rc)"
  shows "(snd (find_corresponding_json env file_path) = Inr (Some sc) \<longrightarrow>
          snd (load_sidecar env sc) = Inr md \<longrightarrow>
          snd (timestamp_args out md) = Inr ts \<longrightarrow>
          snd (gps_args md) = Inr gps \<longrightarrow>
          snd (description_args md) = Inr desc \<longrightarrow>
            snd (process_file env file_path input_dir output_dir) = Inr True \<and>
            Log ERROR (ExifToolError out) \<in> set (fst (process_file env file_path input_dir output_dir))) \<and>
         (snd (find_corresponding_json env file_path) = Inr None \<longrightarrow> conv \<longrightarrow>
            (\<exists>b. snd (process_file env file_path input_dir output_dir) = Inr b) \<and>
            Log ERROR (MetadataCopyFailed file_path out)
              \<in> set (fst (process_file env file_path input_dir output_dir)))"
proof (intro conjI impI)
  assume sc: "snd (find_corresponding_json env file_path) = Inr (Some sc)"
     and ld: "snd (load_sidecar env sc) = Inr md"
     and a: "snd (timestamp_args out md) = Inr ts" "snd (gps_args md) = Inr gps"
            "snd (description_args md) = Inr desc"
  let ?args = "[Str ''exiftool'', Str ''-overwrite_original''] @ ts @ gps @ desc @ [Str (path_str out)]"
  obtain rc where rc: "rc \<noteq> 0" "spawn env ?args = Exited rc"
    using fails by (metis append_Cons list.sel(1))
  have lg: "exiftool_logged env ?args out = Log ERROR (ExifToolError out)"
    using rc by (simp add: exiftool_logged_def)
  obtain t0 where t0: "load_sidecar env sc = (t0, Inr md)"
    using ld by (cases "load_sidecar env sc") auto
  have am: "apply_metadata env file_path out conv =
      (t0 @ fst (timestamp_args out md) @ fst (gps_args md) @ fst (description_args md) @
        [Log INFO (UpdatingMetadata out), Run ?args, Log ERROR (ExifToolError out)], Inr ())"
    unfolding apply_metadata_sidecar[OF sc] t0
    using update_metadata_returns[OF a, of env] lg by (simp add: seq_def)
  have pf: "process_file env file_path input_dir output_dir =
      (Mkdir (parent (joinpath output_dir rel)) # tr @
        t0 @ fst (timestamp_args out md) @ fst (gps_args md) @ fst (description_args md) @
        [Log INFO (UpdatingMetadata out), Run ?args, Log ERROR (ExifToolError out)], Inr True)"
    unfolding process_file_steps[OF rel mk] norm by (simp add: am)
  show "snd (process_file env file_path input_dir output_dir) = Inr True"
    unfolding pf by simp
  show "Log ERROR (ExifToolError out) \<in> set (fst (process_file env file_path input_dir output_dir))"
    unfolding pf by simp
next
  assume none: "snd (find_corresponding_json env file_path) = Inr None" and conv: conv
  let ?args = "[Str ''exiftool'', Str ''-overwrite_original'', Str ''-TagsFromFile'',
                Str (path_str file_path), Str ''-All:All'', Str (path_str out)]"
  obtain rc where rc: "rc \<noteq> 0" "spawn env ?args = Exited rc"
    using fails by (metis list.sel(1))
  have am: "apply_metadata env file_path out conv =
      ([Log INFO (CopyingMetadata file_path out), Run ?args,
        Log ERROR (MetadataCopyFailed file_path out)], Inr ())"
    using conv copy_metadata_nonzero[OF rc(2,1)] find_json_none[OF none]
    by (simp add: apply_metadata_def comp_defs)
  have pf: "process_file env file_path input_dir output_dir =
      (Mkdir (parent (joinpath output_dir rel)) # tr @
        [Log INFO (CopyingMetadata file_path out), Run ?args,
         Log ERROR (MetadataCopyFailed file_path out)], Inr True)"
    unfolding process_file_steps[OF rel mk] norm by (simp add: am)
  show "\<exists>b. snd (process_file env file_path input_dir output_dir) = Inr b"
    by (rule exI[of _ True]) (simp add: pf)
  show "Log ERROR (MetadataCopyFailed file_path out)
          \<in> set (fst (process_file env file_path input_dir output_dir))"
    unfolding pf by simp
qed

theorem metadata_failure_logged_witness:
  "snd (process_file
          (example_env [rel_path [''in'', ''a.jpg.json'']]
             (\<lambda>args. if hd args = Str ''exiftool'' then Exited 1 else Exited 0)
             (Some (JObj [])) [''a.jpg''])
          (rel_path [''in'', ''a.jpg'']) in_dir out_dir) = Inr True \<and>
   Log ERROR (ExifToolError (rel_path [''out'', ''a.jpg'']))
     \<in> set (fst (process_file
          (example_env [rel_path [''in'', ''a.jpg.json'']]
             (\<lambda>args. if hd args = Str ''exiftool'' then Exited 1 else Exited 0)
             (Some (JObj [])) [''a.jpg''])
          (rel_path [''in'', ''a.jpg'']) in_dir out_dir))"
proof -
  let ?E = "example_env [rel_path [''in'', ''a.jpg.json'']]
             (\<lambda>args. if hd args = Str ''exiftool'' then Exited 1 else Exited 0)
             (Some (JObj [])) [''a.jpg'']"
  let ?F = "rel_path [''in'', ''a.jpg'']"
  let ?O = "rel_path [''out'', ''a.jpg'']"
  have rel: "relative_to ?F in_dir = Inr (rel_path [''a.jpg''])"
    by (simp add: relative_to_def rel_path_def in_dir_def)
  have mk: "mkdir_ok ?E (parent (joinpath out_dir (rel_path [''a.jpg''])))"
    by (simp add: example_env_def)
  have norm: "convert_or_copy ?E ?F (joinpath out_dir (rel_path [''a.jpg'']))
                = ([Copy2 ?F ?O], Inr (Some (?O, False)))"
    by code_simp
  have fails: "\<forall>args. hd args = Str ''exiftool'' \<longrightarrow> (\<exists>rc. rc \<noteq> 0 \<and> spawn ?E args = Exited rc)"
    by (simp add: example_env_def)
  have sc: "snd (find_corresponding_json ?E ?F) = Inr (Some (rel_path [''in'', ''a.jpg.json'']))"
    by code_simp
  have ld: "snd (load_sidecar ?E (rel_path [''in'', ''a.jpg.json''])) = Inr (JObj [])"
    by (simp add: load_sidecar_def example_env_def ret_def)
  have a: "snd (timestamp_args ?O (JObj [])) = Inr []" "snd (gps_args (JObj [])) = Inr []"
    "snd (description_args (JObj [])) = Inr []"
    by (simp_all add: empty_bag_args)
  show ?thesis
    using metadata_failure_logged[OF rel mk norm fails,
        where sc = "rel_path [''in'', ''a.jpg.json'']" and md = "JObj []" and ts = "[]"
          and gps = "[]" and desc = "[]"]
      sc ld a fails
    by blast
qed

subsection \<open>The calendar: \<open>gmtime\<close> is the inverse of \<open>timegm\<close>\<close>





declare year_of_days.simps [simp del]













lemma far_from_zero_int: "far_from_zero (JNum (PInt i)) = (i \<noteq> 0)"
  by (auto simp: far_from_zero_def gps_threshold_def)


lemma non_negative_int: "non_negative (JNum (PInt i)) = (0 \<le> i)"
  by (simp add: non_negative_def)

lemma threshold_value: "1 / 100000 < gps_threshold \<and> gps_threshold < 100001 / 10000000000"
  by (simp add: gps_threshold_def)


lemma null_island_omitted:
  "gps_args (JObj [(''geoData'', JObj [(''latitude'', JNum (PFloat 0)),
                                        (''longitude'', JNum (PFloat 0))]),
                   (''geoDataExif'', JObj [(''latitude'', JNum (PFloat 37)),
                                           (''longitude'', JNum (PFloat (- 122)))])])
   = ([], Inr [])"
  by code_simp



declare decimal.simps [simp del]











lemma unparsable_timestamp_skipped:
  "timestamp_args (rel_path [''out'', ''a.jpg''])
     (JObj [(''photoTakenTime'', JObj [(''timestamp'', JStr ''yesterday'')])])
   = ([Log WARNING (UnableToParseTimestamp (JStr ''yesterday'') (rel_path [''out'', ''a.jpg'']))],
      Inr [])"
  by code_simp

lemma creation_time_fallback:
  "timestamp_args (rel_path [''out'', ''a.jpg''])
     (JObj [(''creationTime'', JObj [(''timestamp'', JStr ''1600000000'')])])
   = ([], Inr [Str ''-DateTimeOriginal=2020:09:13 12:26:40'',
               Str ''-CreateDate=2020:09:13 12:26:40'',
               Str ''-ModifyDate=2020:09:13 12:26:40''])"
  by code_simp

lemma year_below_1000_not_padded:
  "timestamp_args (rel_path [''out'', ''a.jpg''])
     (JObj [(''photoTakenTime'', JObj [(''timestamp'', JStr ''-31000000000'')])])
   = ([], Inr [Str ''-DateTimeOriginal=987:08:25 16:53:20'',
               Str ''-CreateDate=987:08:25 16:53:20'',
               Str ''-ModifyDate=987:08:25 16:53:20''])"
  by code_simp

lemma separator_is_no_space:
  "py_int (JStr (CHR 0x1C # ''1700000000'')) = Inl ValueError"
  by code_simp

lemma no_break_space_is_dropped:
  "py_int (JStr (CHR 0xA0 # ''1700000000'')) = Inr 1700000000"
  by code_simp

lemma true_is_one:
  "timestamp_args (rel_path [''out'', ''a.jpg''])
     (JObj [(''photoTakenTime'', JObj [(''timestamp'', JBool True)])])
   = ([], Inr [Str ''-DateTimeOriginal=1970:01:01 00:00:01'',
               Str ''-CreateDate=1970:01:01 00:00:01'',
               Str ''-ModifyDate=1970:01:01 00:00:01''])"
  by code_simp

end
